theory Spec2Isabelle
  imports Complex_Main "HOL-Library.AList"
begin

section \<open>The realtime connection manager (useRealtime)\<close>

text \<open>
  The hook keeps its data in one React state cell (\<open>connection\<close>) and five refs. The model
  threads them through every operation as one record, and each operation runs to its end
  before the next one starts (the event loop is single threaded). A ref is read at its
  current value. A function made by \<open>useCallback\<close> reads \<open>user\<close> and \<open>connection\<close> from
  the render that created it; where such a function is kept and called later (the retry
  timer), the model passes it the values of that render. Updates of the state cell
  (\<open>setConnection(prev => ...)\<close>) act on the current value. Timestamps (\<open>Date.now()\<close>,
  \<open>new Date()\<close>) and random draws (\<open>Math.random()\<close>) are parameters of the operation that
  reads them. The calls made on the realtime transport are appended to a log,
  \<open>transport\<close>.
\<close>

subsection \<open>Data\<close>

datatype ConnectionStatus = Connecting | Connected | Disconnected | Error | Reconnecting

datatype PresenceStatus = Online | Away | Busy | Offline

type_synonym timestamp = nat

text \<open>A callback is a function of the caller; the model keeps a handle for it.\<close>

type_synonym callback = nat

record UserPresence =
  user_id :: string
  team_id :: string
  presence_status :: PresenceStatus
  last_seen :: timestamp
  current_page :: "string option"
  cursor_position :: "(int \<times> int) option"
  selection :: "string option"
  metadata :: "string option"

text \<open>\<open>Partial<UserPresence>\<close>: every key may be absent (\<open>None\<close>).\<close>

record PartialPresence =
  p_user_id :: "string option"
  p_team_id :: "string option"
  p_status :: "PresenceStatus option"
  p_last_seen :: "timestamp option"
  p_current_page :: "string option"
  p_cursor_position :: "(int \<times> int) option"
  p_selection :: "string option"
  p_metadata :: "string option"

record RealtimeConnection =
  status :: ConnectionStatus
  last_ping :: timestamp
  reconnect_attempts :: nat
  subscriptions :: "string list"
  error :: "string option"

record ChannelSubscription =
  channel :: string
  callbacks :: "(string \<times> callback) list"
  lastActivity :: timestamp

record RealtimeConfig =
  heartbeatInterval :: real
  reconnectInterval :: real
  maxReconnectAttempts :: nat
  presenceUpdateInterval :: real

definition DEFAULT_CONFIG :: RealtimeConfig where
  "DEFAULT_CONFIG = \<lparr> heartbeatInterval = 30000, reconnectInterval = 1000,
     maxReconnectAttempts = 10, presenceUpdateInterval = 5000 \<rparr>"

text \<open>Calls on the transport: \<open>supabase.channel(name, {presence key})\<close> followed by
  \<open>.subscribe\<close>, \<open>channel.unsubscribe()\<close>, \<open>channel.track(presence)\<close> and
  \<open>channel.send({type: 'broadcast', event, payload})\<close>.\<close>

datatype transport_call =
    ChannelCreated string string
  | ChannelUnsubscribed string
  | Track string UserPresence
  | Broadcast string string string

text \<open>What the closures \<open>connect\<close> and \<open>scheduleReconnect\<close> of one render see: the \<open>user\<close>
  and the \<open>connection.reconnect_attempts\<close> of that render.\<close>

record render =
  r_user :: "string option"
  r_reconnect_attempts :: nat

record realtime =
  user :: "string option"
  connection :: RealtimeConnection
  channelsRef :: "(string \<times> ChannelSubscription) list"
  heartbeatRef :: bool
  reconnectTimeoutRef :: "(real \<times> render) option"
  presenceRef :: "UserPresence option"
  isConnectingRef :: bool
  transport :: "transport_call list"

text \<open>\<open>heartbeatRef\<close> says whether the heartbeat interval is running; \<open>reconnectTimeoutRef\<close>
  holds the retry timer that is pending, if one is: its delay, and the render whose
  \<open>connect\<close> its callback calls. \<open>channelsRef\<close> is the JavaScript \<open>Map\<close> from channel names
  to subscriptions, in insertion order.\<close>

definition initial :: "string option \<Rightarrow> timestamp \<Rightarrow> realtime" where
  "initial u now = \<lparr> user = u,
     connection = \<lparr> status = Disconnected, last_ping = now, reconnect_attempts = 0,
                    subscriptions = [], error = None \<rparr>,
     channelsRef = [], heartbeatRef = False, reconnectTimeoutRef = None,
     presenceRef = None, isConnectingRef = False, transport = [] \<rparr>"

text \<open>The closures of the latest render see the current values.\<close>

definition current_render :: "realtime \<Rightarrow> render" where
  "current_render s =
     \<lparr> r_user = user s, r_reconnect_attempts = reconnect_attempts (connection s) \<rparr>"

definition setConnection :: "(RealtimeConnection \<Rightarrow> RealtimeConnection) \<Rightarrow> realtime \<Rightarrow> realtime" where
  "setConnection f s = s\<lparr> connection := f (connection s) \<rparr>"

subsection \<open>Status, delay, heartbeat\<close>

text \<open>\<open>...(error && { error })\<close>: an absent or empty message leaves the field as it was.\<close>

definition updateConnectionStatus ::
  "timestamp \<Rightarrow> ConnectionStatus \<Rightarrow> string option \<Rightarrow> realtime \<Rightarrow> realtime" where
  "updateConnectionStatus now st err s =
     setConnection (\<lambda>prev. prev\<lparr> status := st, last_ping := now,
        error := (case err of None \<Rightarrow> error prev
                  | Some e \<Rightarrow> if e = [] then error prev else Some e) \<rparr>) s"

text \<open>\<open>rnd\<close> is the value of \<open>Math.random()\<close>, a number in \<open>[0, 1)\<close>.\<close>

definition getReconnectDelay :: "RealtimeConfig \<Rightarrow> real \<Rightarrow> nat \<Rightarrow> real" where
  "getReconnectDelay cfg rnd attempt =
     (let baseDelay = reconnectInterval cfg;
          maxDelay = 30000;
          delay = min (baseDelay * 2 ^ attempt) maxDelay
      in delay + rnd * 1000)"

definition startHeartbeat :: "realtime \<Rightarrow> realtime" where
  "startHeartbeat s = s\<lparr> heartbeatRef := True \<rparr>"

definition stopHeartbeat :: "realtime \<Rightarrow> realtime" where
  "stopHeartbeat s = s\<lparr> heartbeatRef := False \<rparr>"

subsection \<open>Connecting and reconnecting\<close>

text \<open>\<open>scheduleReconnect\<close> of render \<open>r\<close>: the counter it tests and passes to
  \<open>getReconnectDelay\<close> is \<open>connection.reconnect_attempts\<close> of that render. The callback of
  the timer it sets calls the \<open>connect\<close> of the same render.\<close>

definition scheduleReconnect ::
  "RealtimeConfig \<Rightarrow> render \<Rightarrow> timestamp \<Rightarrow> real \<Rightarrow> realtime \<Rightarrow> realtime" where
  "scheduleReconnect cfg r now rnd s =
     (let s1 = s\<lparr> reconnectTimeoutRef := None \<rparr>
      in if r_reconnect_attempts r \<ge> maxReconnectAttempts cfg
         then updateConnectionStatus now Error (Some ''Max reconnection attempts reached'') s1
         else let delay = getReconnectDelay cfg rnd (r_reconnect_attempts r)
              in (updateConnectionStatus now Reconnecting None s1)
                   \<lparr> reconnectTimeoutRef := Some (delay, r) \<rparr>)"

text \<open>\<open>connect\<close> of render \<open>r\<close>; it calls the \<open>scheduleReconnect\<close> of the same render.
  \<open>probe\<close> is the outcome of the connectivity query: \<open>None\<close> when it succeeds, the error
  message otherwise.\<close>

definition connect ::
  "RealtimeConfig \<Rightarrow> render \<Rightarrow> timestamp \<Rightarrow> real \<Rightarrow> string option \<Rightarrow> realtime \<Rightarrow> realtime" where
  "connect cfg r now rnd probe s =
     (if r_user r = None \<or> isConnectingRef s then s
      else let s1 = updateConnectionStatus now Connecting None (s\<lparr> isConnectingRef := True \<rparr>)
           in (case probe of
                 None \<Rightarrow>
                   (setConnection (\<lambda>prev. prev\<lparr> reconnect_attempts := 0 \<rparr>)
                      (startHeartbeat (updateConnectionStatus now Connected None s1)))
                    \<lparr> isConnectingRef := False \<rparr>
               | Some msg \<Rightarrow>
                   (scheduleReconnect cfg r now rnd
                      (updateConnectionStatus now Error
                         (Some (''Connection test failed: '' @ msg)) s1))
                    \<lparr> isConnectingRef := False \<rparr>))"

text \<open>The callback of the retry timer: it runs only when the timer is still pending. It
  increments the counter of the state cell and calls the \<open>connect\<close> of the render that
  set the timer.\<close>

definition reconnectTimerFires ::
  "RealtimeConfig \<Rightarrow> timestamp \<Rightarrow> real \<Rightarrow> string option \<Rightarrow> realtime \<Rightarrow> realtime" where
  "reconnectTimerFires cfg now rnd probe s =
     (case reconnectTimeoutRef s of
        None \<Rightarrow> s
      | Some (d, r) \<Rightarrow>
          connect cfg r now rnd probe
            (setConnection (\<lambda>prev. prev\<lparr> reconnect_attempts := reconnect_attempts prev + 1 \<rparr>)
               (s\<lparr> reconnectTimeoutRef := None \<rparr>)))"

definition disconnect :: "timestamp \<Rightarrow> realtime \<Rightarrow> realtime" where
  "disconnect now s =
     (let s1 = stopHeartbeat s;
          s2 = s1\<lparr> reconnectTimeoutRef := None \<rparr>;
          s3 = s2\<lparr> transport := transport s2 @
                     map (\<lambda>(name, sub). ChannelUnsubscribed (channel sub)) (channelsRef s2),
                   channelsRef := [] \<rparr>;
          s4 = updateConnectionStatus now Disconnected None s3
      in setConnection (\<lambda>prev. prev\<lparr> subscriptions := [], reconnect_attempts := 0 \<rparr>) s4)"

subsection \<open>Channels\<close>

text \<open>The function that \<open>subscribe\<close> returns: the empty function when the hook is not
  connected, otherwise a closure over the channel name and the callback id.\<close>

datatype unsubscribe_fn = Noop | RemoveCallback string string

definition subscribe ::
  "timestamp \<Rightarrow> string \<Rightarrow> callback \<Rightarrow> string \<Rightarrow> realtime \<Rightarrow> unsubscribe_fn \<times> realtime" where
  "subscribe now channelName cb callbackId s =
     (case user s of
        None \<Rightarrow> (Noop, s)
      | Some uid \<Rightarrow>
          if status (connection s) \<noteq> Connected then (Noop, s)
          else
            let (subscription, s1) =
                  (case map_of (channelsRef s) channelName of
                     Some sub \<Rightarrow> (sub, s)
                   | None \<Rightarrow>
                       let sub = \<lparr> channel = channelName, callbacks = [], lastActivity = now \<rparr>
                       in (sub, setConnection
                                  (\<lambda>prev. prev\<lparr> subscriptions := subscriptions prev @ [channelName] \<rparr>)
                                  (s\<lparr> transport := transport s @ [ChannelCreated channelName uid],
                                      channelsRef := AList.update channelName sub (channelsRef s) \<rparr>)));
                subscription' = subscription\<lparr> callbacks :=
                                  AList.update callbackId cb (callbacks subscription) \<rparr>
            in (RemoveCallback channelName callbackId,
                s1\<lparr> channelsRef := AList.update channelName subscription' (channelsRef s1) \<rparr>))"

text \<open>Calling the function that \<open>subscribe\<close> returned.\<close>

definition call_unsubscribe_fn :: "unsubscribe_fn \<Rightarrow> realtime \<Rightarrow> realtime" where
  "call_unsubscribe_fn f s =
     (case f of
        Noop \<Rightarrow> s
      | RemoveCallback channelName callbackId \<Rightarrow>
          (case map_of (channelsRef s) channelName of
             None \<Rightarrow> s
           | Some sub \<Rightarrow>
               let sub' = sub\<lparr> callbacks := AList.delete callbackId (callbacks sub) \<rparr>
               in if callbacks sub' = []
                  then setConnection
                         (\<lambda>prev. prev\<lparr> subscriptions :=
                                          filter (\<lambda>x. x \<noteq> channelName) (subscriptions prev) \<rparr>)
                         (s\<lparr> transport := transport s @ [ChannelUnsubscribed (channel sub')],
                             channelsRef := AList.delete channelName (channelsRef s) \<rparr>)
                  else s\<lparr> channelsRef := AList.update channelName sub' (channelsRef s) \<rparr>))"

definition unsubscribe :: "string \<Rightarrow> realtime \<Rightarrow> realtime" where
  "unsubscribe channelName s =
     (case map_of (channelsRef s) channelName of
        None \<Rightarrow> s
      | Some sub \<Rightarrow>
          setConnection
            (\<lambda>prev. prev\<lparr> subscriptions := filter (\<lambda>x. x \<noteq> channelName) (subscriptions prev) \<rparr>)
            (s\<lparr> transport := transport s @ [ChannelUnsubscribed (channel sub)],
                channelsRef := AList.delete channelName (channelsRef s) \<rparr>))"

subsection \<open>Presence and broadcast\<close>

text \<open>\<open>haystack.includes(needle)\<close> on strings.\<close>

fun starts_with :: "string \<Rightarrow> string \<Rightarrow> bool" where
  "starts_with hay [] = True"
| "starts_with [] (n # ns) = False"
| "starts_with (h # hs) (n # ns) = (h = n \<and> starts_with hs ns)"

fun str_includes :: "string \<Rightarrow> string \<Rightarrow> bool" where
  "str_includes [] needle = (needle = [])"
| "str_includes (h # hs) needle = (starts_with (h # hs) needle \<or> str_includes hs needle)"

text \<open>Object spread \<open>{ ...base, ...presence }\<close>: every key of the partial object wins.\<close>

definition spread_presence :: "UserPresence \<Rightarrow> PartialPresence \<Rightarrow> UserPresence" where
  "spread_presence base p =
     \<lparr> user_id = (case p_user_id p of Some v \<Rightarrow> v | None \<Rightarrow> user_id base),
       team_id = (case p_team_id p of Some v \<Rightarrow> v | None \<Rightarrow> team_id base),
       presence_status = (case p_status p of Some v \<Rightarrow> v | None \<Rightarrow> presence_status base),
       last_seen = (case p_last_seen p of Some v \<Rightarrow> v | None \<Rightarrow> last_seen base),
       current_page = (case p_current_page p of Some v \<Rightarrow> Some v | None \<Rightarrow> current_page base),
       cursor_position =
         (case p_cursor_position p of Some v \<Rightarrow> Some v | None \<Rightarrow> cursor_position base),
       selection = (case p_selection p of Some v \<Rightarrow> Some v | None \<Rightarrow> selection base),
       metadata = (case p_metadata p of Some v \<Rightarrow> Some v | None \<Rightarrow> metadata base) \<rparr>"

definition track_presence_channels :: "UserPresence \<Rightarrow> realtime \<Rightarrow> realtime" where
  "track_presence_channels pr s =
     s\<lparr> transport := transport s @
          map (\<lambda>(name, sub). Track (channel sub) pr)
            (filter (\<lambda>(name, sub). str_includes name ''presence'') (channelsRef s)) \<rparr>"

definition updatePresence :: "timestamp \<Rightarrow> PartialPresence \<Rightarrow> realtime \<Rightarrow> realtime" where
  "updatePresence now presence s =
     (case user s of
        None \<Rightarrow> s
      | Some uid \<Rightarrow>
          let updatedPresence = spread_presence
                \<lparr> user_id = uid,
                  team_id = (case p_team_id presence of Some t \<Rightarrow> t | None \<Rightarrow> []),
                  presence_status = (case p_status presence of Some st \<Rightarrow> st | None \<Rightarrow> Online),
                  last_seen = now,
                  current_page = None, cursor_position = None, selection = None,
                  metadata = None \<rparr> presence
          in track_presence_channels updatedPresence (s\<lparr> presenceRef := Some updatedPresence \<rparr>))"

text \<open>A thrown \<open>Error\<close> is \<open>Inl\<close> of its message. \<open>resp\<close> is the transport's answer to the
  send.\<close>

definition sendMessage ::
  "string \<Rightarrow> string \<Rightarrow> string \<Rightarrow> 'r \<Rightarrow> realtime \<Rightarrow> string + ('r \<times> realtime)" where
  "sendMessage channelName event payload resp s =
     (case map_of (channelsRef s) channelName of
        None \<Rightarrow> Inl (''Channel '' @ channelName @ '' not found'')
      | Some subscription \<Rightarrow>
          Inr (resp, s\<lparr> transport := transport s @
                          [Broadcast (channel subscription) event payload] \<rparr>))"

subsection \<open>Runs of the hook\<close>

text \<open>A \<open>Connect\<close> event is a call of the \<open>connect\<close> of the latest render.\<close>

datatype event =
    Connect timestamp real "string option"
  | TimerFires timestamp real "string option"
  | Disconnect timestamp
  | Subscribe timestamp string callback string
  | CallUnsubscribeFn unsubscribe_fn
  | Unsubscribe string
  | UpdatePresence timestamp PartialPresence

fun step :: "RealtimeConfig \<Rightarrow> realtime \<Rightarrow> event \<Rightarrow> realtime" where
  "step cfg s (Connect now rnd probe) = connect cfg (current_render s) now rnd probe s"
| "step cfg s (TimerFires now rnd probe) = reconnectTimerFires cfg now rnd probe s"
| "step cfg s (Disconnect now) = disconnect now s"
| "step cfg s (Subscribe now channelName cb callbackId) =
     snd (subscribe now channelName cb callbackId s)"
| "step cfg s (CallUnsubscribeFn f) = call_unsubscribe_fn f s"
| "step cfg s (Unsubscribe channelName) = unsubscribe channelName s"
| "step cfg s (UpdatePresence now presence) = updatePresence now presence s"

definition run :: "RealtimeConfig \<Rightarrow> realtime \<Rightarrow> event list \<Rightarrow> realtime" where
  "run cfg s evs = foldl (step cfg) s evs"

text \<open>The number of callbacks registered for a channel name, and the numbers of
  physical channels created and torn down for it so far.\<close>

definition callback_count :: "realtime \<Rightarrow> string \<Rightarrow> nat" where
  "callback_count s c =
     (case map_of (channelsRef s) c of None \<Rightarrow> 0 | Some sub \<Rightarrow> length (callbacks sub))"

fun is_creation :: "string \<Rightarrow> transport_call \<Rightarrow> bool" where
  "is_creation c (ChannelCreated n k) = (n = c)"
| "is_creation c t = False"

fun is_teardown :: "string \<Rightarrow> transport_call \<Rightarrow> bool" where
  "is_teardown c (ChannelUnsubscribed n) = (n = c)"
| "is_teardown c t = False"

definition creations :: "string \<Rightarrow> realtime \<Rightarrow> nat" where
  "creations c s = length (filter (is_creation c) (transport s))"

definition teardowns :: "string \<Rightarrow> realtime \<Rightarrow> nat" where
  "teardowns c s = length (filter (is_teardown c) (transport s))"

text \<open>The number of steps of a run at which the callback count of \<open>c\<close> goes from 0 to 1,
  and from 1 to 0.\<close>

fun rises :: "RealtimeConfig \<Rightarrow> string \<Rightarrow> realtime \<Rightarrow> event list \<Rightarrow> nat" where
  "rises cfg c s [] = 0"
| "rises cfg c s (e # es) =
     (if callback_count s c = 0 \<and> callback_count (step cfg s e) c = 1 then 1 else 0)
     + rises cfg c (step cfg s e) es"

fun falls :: "RealtimeConfig \<Rightarrow> string \<Rightarrow> realtime \<Rightarrow> event list \<Rightarrow> nat" where
  "falls cfg c s [] = 0"
| "falls cfg c s (e # es) =
     (if callback_count s c = 1 \<and> callback_count (step cfg s e) c = 0 then 1 else 0)
     + falls cfg c (step cfg s e) es"

text \<open>The events of reference counting: a call of \<open>subscribe\<close>, or a call of a function
  that \<open>subscribe\<close> returned.\<close>

fun refcount_event :: "event \<Rightarrow> bool" where
  "refcount_event (Subscribe now channelName cb callbackId) = True"
| "refcount_event (CallUnsubscribeFn f) = True"
| "refcount_event e = False"

text \<open>The subscription map binds every name once, every bound subscription has a
  callback, and the callback ids of a subscription are distinct.\<close>

definition channels_ok :: "realtime \<Rightarrow> bool" where
  "channels_ok s \<longleftrightarrow>
     distinct (map fst (channelsRef s)) \<and>
     list_all (\<lambda>(name, sub). channel sub = name \<and> callbacks sub \<noteq> []
                 \<and> distinct (map fst (callbacks sub))) (channelsRef s)"

text \<open>The callback registered under id \<open>i\<close> on channel \<open>c\<close>, if there is one, and whether
  there is one.\<close>

definition callback_of :: "realtime \<Rightarrow> string \<Rightarrow> string \<Rightarrow> callback option" where
  "callback_of s c i =
     (case map_of (channelsRef s) c of
        None \<Rightarrow> None
      | Some sub \<Rightarrow> map_of (callbacks sub) i)"

definition has_callback :: "realtime \<Rightarrow> string \<Rightarrow> string \<Rightarrow> bool" where
  "has_callback s c i =
     (case map_of (channelsRef s) c of
        None \<Rightarrow> False
      | Some sub \<Rightarrow> i \<in> set (map fst (callbacks sub)))"

section \<open>The team collaboration service (useTeamCollaboration)\<close>

text \<open>
  The data store is a record of tables, each a list of rows. A query filters a table;
  \<open>.single()\<close> yields a row when exactly one row passes the filters and an error (no
  data) otherwise. What the store answers to a write is a parameter (\<open>responses\<close>):
  the source tests the error of each write.
\<close>

subsection \<open>Data\<close>

datatype json = JNull | JBool bool | JNum int | JStr string
  | JArr "json list" | JObj "(string \<times> json) list"

datatype TeamRole = Owner | Admin | Member | Viewer

text \<open>A settings object (\<open>TeamSettings\<close> or a partial one): its top-level keys, in
  order, with their values.\<close>

type_synonym settings_object = "(string \<times> json) list"

record Team =
  t_id :: string
  max_members :: int
  settings :: settings_object

record TeamInvite =
  i_id :: string
  i_team_id :: string
  invite_code :: string
  expires_at :: timestamp
  max_uses :: "int option"
  current_uses :: int
  is_active :: bool

record TeamMember =
  m_id :: string
  m_team_id :: string
  m_user_id :: string
  role :: TeamRole
  m_is_active :: bool

record TeamActivity =
  a_team_id :: string
  a_user_id :: string
  action :: string
  resource_type :: string
  resource_id :: string
  a_metadata :: json

record store =
  teams :: "Team list"
  team_invites :: "TeamInvite list"
  team_members :: "TeamMember list"
  team_activities :: "TeamActivity list"

text \<open>The hook's arguments and state: the signed-in user, the team id, the data store
  and the \<open>error\<close> state cell.\<close>

record collab =
  c_user :: "string option"
  teamId :: string
  db :: store
  c_error :: "string option"

text \<open>The store's answers to the writes of one operation: the message that the
  \<open>catch\<close> block reports when the write fails (\<open>None\<close> when it succeeds), the id the
  store gives a new member row, and whether the writes whose error the source ignores
  or swallows take effect.\<close>

record responses =
  member_insert_error :: "string option"
  new_member_id :: string
  invite_update_ok :: bool
  settings_update_error :: "string option"
  activity_insert_ok :: bool

datatype JoinTeamResponse =
    JoinFailure string
  | JoinSuccess "Team option" TeamMember

subsection \<open>Queries\<close>

definition single :: "'a list \<Rightarrow> 'a option" where
  "single rows = (case rows of [r] \<Rightarrow> Some r | _ \<Rightarrow> None)"

text \<open>\<open>toUpperCase\<close> on strings of ASCII characters, which invite codes are. A character
  beyond ASCII is left as it is, where JavaScript maps some of them (U+00E9 to U+00C9,
  for example): on such input the model is not the source.\<close>

definition toUpperChar :: "char \<Rightarrow> char" where
  "toUpperChar c =
     (let n = (of_char c :: nat) in if 97 \<le> n \<and> n \<le> 122 then char_of (n - 32) else c)"

definition toUpperCase :: "string \<Rightarrow> string" where
  "toUpperCase str = map toUpperChar str"

definition invites_by_code :: "store \<Rightarrow> string \<Rightarrow> TeamInvite list" where
  "invites_by_code d code =
     filter (\<lambda>i. invite_code i = toUpperCase code \<and> is_active i) (team_invites d)"

definition memberships :: "store \<Rightarrow> string \<Rightarrow> string \<Rightarrow> TeamMember list" where
  "memberships d tid uid =
     filter (\<lambda>m. m_team_id m = tid \<and> m_user_id m = uid) (team_members d)"

definition active_member_count :: "store \<Rightarrow> string \<Rightarrow> nat" where
  "active_member_count d tid =
     length (filter (\<lambda>m. m_team_id m = tid \<and> m_is_active m) (team_members d))"

text \<open>The embedded \<open>team:teams(*)\<close> of an invite row.\<close>

definition team_of :: "store \<Rightarrow> string \<Rightarrow> Team option" where
  "team_of d tid = find (\<lambda>t. t_id t = tid) (teams d)"

subsection \<open>Operations\<close>

definition markActivity ::
  "responses \<Rightarrow> string \<Rightarrow> string \<Rightarrow> string \<Rightarrow> json \<Rightarrow> collab \<Rightarrow> collab" where
  "markActivity rsp act resourceType resourceId md c =
     (case c_user c of
        None \<Rightarrow> c
      | Some uid \<Rightarrow>
          if teamId c = [] then c
          else if \<not> activity_insert_ok rsp then c
          else c\<lparr> db := (db c)\<lparr> team_activities := team_activities (db c) @
                 [\<lparr> a_team_id = teamId c, a_user_id = uid, action = act,
                    resource_type = resourceType, resource_id = resourceId,
                    a_metadata = md \<rparr>] \<rparr> \<rparr>)"

text \<open>\<open>memberCount && memberCount >= inviteData.team.max_members\<close>: a count of zero
  ends the test before the team is read; reading \<open>max_members\<close> of a missing team throws
  a \<open>TypeError\<close>, which the \<open>catch\<close> block turns into a failure with its message (the
  text is the one of V8, the engine of Node and Chrome).\<close>

definition at_member_limit :: "nat \<Rightarrow> Team option \<Rightarrow> string + bool" where
  "at_member_limit memberCount team =
     (if memberCount = 0 then Inr False
      else case team of
             None \<Rightarrow> Inl ''Cannot read properties of null (reading 'max_members')''
           | Some t \<Rightarrow> Inr (int memberCount \<ge> max_members t))"

definition joinTeam ::
  "timestamp \<Rightarrow> responses \<Rightarrow> string \<Rightarrow> collab \<Rightarrow> JoinTeamResponse \<times> collab" where
  "joinTeam now rsp inviteCode c =
     (case c_user c of
        None \<Rightarrow> (JoinFailure ''Authentication required'', c)
      | Some uid \<Rightarrow>
         (case single (invites_by_code (db c) inviteCode) of
            None \<Rightarrow> (JoinFailure ''Invalid or expired invite code'', c)
          | Some inviteData \<Rightarrow>
             if expires_at inviteData < now
             then (JoinFailure ''Invite code has expired'', c)
             else if (case max_uses inviteData of
                        None \<Rightarrow> False
                      | Some m \<Rightarrow> m \<noteq> 0 \<and> current_uses inviteData \<ge> m)
             then (JoinFailure ''Invite code has reached maximum uses'', c)
             else
              (case single (memberships (db c) (i_team_id inviteData) uid) of
                 Some existingMember \<Rightarrow>
                   (JoinFailure ''You are already a member of this team'', c)
               | None \<Rightarrow>
                  let memberCount = active_member_count (db c) (i_team_id inviteData);
                      team = team_of (db c) (i_team_id inviteData)
                  in (case at_member_limit memberCount team of
                       Inl msg \<Rightarrow> (JoinFailure msg, c)
                     | Inr True \<Rightarrow> (JoinFailure ''Team has reached maximum member limit'', c)
                     | Inr False \<Rightarrow>
                      (case member_insert_error rsp of
                         Some msg \<Rightarrow> (JoinFailure msg, c)
                       | None \<Rightarrow>
                          let memberData = \<lparr> m_id = new_member_id rsp,
                                m_team_id = i_team_id inviteData, m_user_id = uid,
                                role = Member, m_is_active = True \<rparr>;
                              c1 = c\<lparr> db := (db c)\<lparr> team_members :=
                                     team_members (db c) @ [memberData] \<rparr> \<rparr>;
                              c2 = (if invite_update_ok rsp
                                    then c1\<lparr> db := (db c1)\<lparr> team_invites :=
                                           map (\<lambda>i. if i_id i = i_id inviteData
                                                     then i\<lparr> current_uses :=
                                                            current_uses inviteData + 1 \<rparr>
                                                     else i) (team_invites (db c1)) \<rparr> \<rparr>
                                    else c1);
                              c3 = markActivity rsp ''member_joined'' ''team''
                                     (i_team_id inviteData)
                                     (JObj [(''invite_code'', JStr inviteCode)]) c2
                          in (JoinSuccess team memberData, c3))))))"

text \<open>\<open>Object.keys(settings)\<close>.\<close>

definition object_keys :: "settings_object \<Rightarrow> string list" where
  "object_keys obj = map fst obj"

definition updateTeamSettings ::
  "responses \<Rightarrow> settings_object \<Rightarrow> collab \<Rightarrow> bool \<times> collab" where
  "updateTeamSettings rsp new_settings c =
     (case c_user c of
        None \<Rightarrow> (False, c)
      | Some uid \<Rightarrow>
          if teamId c = [] then (False, c)
          else
           (case single (memberships (db c) (teamId c) uid) of
              None \<Rightarrow>
                (False, c\<lparr> c_error := Some ''Insufficient permissions to update team settings'' \<rparr>)
            | Some currentMember \<Rightarrow>
                if role currentMember \<noteq> Owner \<and> role currentMember \<noteq> Admin
                then (False,
                      c\<lparr> c_error := Some ''Insufficient permissions to update team settings'' \<rparr>)
                else
                 (case settings_update_error rsp of
                    Some msg \<Rightarrow> (False, c\<lparr> c_error := Some msg \<rparr>)
                  | None \<Rightarrow>
                     let c1 = c\<lparr> db := (db c)\<lparr> teams :=
                                map (\<lambda>t. if t_id t = teamId c
                                          then t\<lparr> settings := new_settings \<rparr> else t)
                                    (teams (db c)) \<rparr> \<rparr>;
                         c2 = markActivity rsp ''team_settings_updated'' ''team'' (teamId c)
                                (JObj [(''updated_settings'',
                                        JArr (map JStr (object_keys new_settings)))]) c1
                     in (True, c2))))"

section \<open>Runs used in the statements\<close>

text \<open>A run of failed retries: the retry timer fires and the connectivity query fails,
  once for each element (timestamp, random draw, error message) of the list.\<close>

fun failed_retries ::
  "RealtimeConfig \<Rightarrow> (timestamp \<times> real \<times> string) list \<Rightarrow> realtime \<Rightarrow> realtime" where
  "failed_retries cfg [] s = s"
| "failed_retries cfg ((now, rnd, msg) # rs) s =
     failed_retries cfg rs (reconnectTimerFires cfg now rnd (Some msg) s)"

text \<open>The random draw of the latest attempt of a run of retries.\<close>

definition last_draw :: "real \<Rightarrow> (timestamp \<times> real \<times> string) list \<Rightarrow> real" where
  "last_draw rnd rs = (if rs = [] then rnd else fst (snd (last rs)))"

text \<open>The hook is waiting for a retry set by render \<open>r\<close>: its counter is \<open>k\<close>, its status
  is \<open>reconnecting\<close>, and the pending timer has the delay computed from the counter that
  render \<open>r\<close> saw and calls the \<open>connect\<close> of render \<open>r\<close>.\<close>

definition retrying :: "RealtimeConfig \<Rightarrow> render \<Rightarrow> real \<Rightarrow> nat \<Rightarrow> realtime \<Rightarrow> bool" where
  "retrying cfg r rnd k s \<longleftrightarrow>
     \<not> isConnectingRef s \<and> reconnect_attempts (connection s) = k \<and>
     status (connection s) = Reconnecting \<and>
     reconnectTimeoutRef s = Some (getReconnectDelay cfg rnd (r_reconnect_attempts r), r)"

text \<open>A signed-in, connected hook with one subscribed channel, for the examples.\<close>

definition example_connected :: realtime where
  "example_connected =
     connect DEFAULT_CONFIG (current_render (initial (Some ''u1'') 0)) 0 0 None
       (initial (Some ''u1'') 0)"

definition example_subscribed :: realtime where
  "example_subscribed = snd (subscribe 1 ''team_presence_t1'' 7 ''callback_1_a'' example_connected)"

text \<open>The physical channels of \<open>c\<close> that are alive are those created and not torn
  down; \<open>balanced\<close> says that they are the entries of the subscription map for \<open>c\<close>.\<close>

definition balanced :: "string \<Rightarrow> realtime \<Rightarrow> bool" where
  "balanced c s \<longleftrightarrow>
     creations c s = teardowns c s + length (filter (\<lambda>(name, sub). name = c) (channelsRef s))"

text \<open>What one step of a run does to the counts of channel \<open>c\<close>.\<close>

definition step_ok :: "RealtimeConfig \<Rightarrow> string \<Rightarrow> realtime \<Rightarrow> event \<Rightarrow> bool" where
  "step_ok cfg c s e \<longleftrightarrow>
     channels_ok (step cfg s e)
     \<and> creations c (step cfg s e) = creations c s +
          (if callback_count s c = 0 \<and> callback_count (step cfg s e) c = 1 then 1 else 0)
     \<and> teardowns c (step cfg s e) = teardowns c s +
          (if callback_count s c = 1 \<and> callback_count (step cfg s e) c = 0 then 1 else 0)
     \<and> (balanced c s \<longrightarrow> balanced c (step cfg s e))"

text \<open>A \<open>subscribe\<close> call that registers callback id \<open>i\<close> on channel \<open>c\<close>.\<close>

fun adds_callback :: "string \<Rightarrow> string \<Rightarrow> event \<Rightarrow> bool" where
  "adds_callback c i (Subscribe now channelName cb callbackId) = (channelName = c \<and> callbackId = i)"
| "adds_callback c i e = False"

text \<open>Two partial presence objects: the one the team page sends, and the one sent when
  the tab is hidden.\<close>

definition page_presence :: PartialPresence where
  "page_presence = \<lparr> p_user_id = None, p_team_id = Some ''t1'', p_status = Some Online,
     p_last_seen = None, p_current_page = Some ''/properties'', p_cursor_position = None,
     p_selection = None, p_metadata = None \<rparr>"

definition away_presence :: PartialPresence where
  "away_presence = \<lparr> p_user_id = None, p_team_id = None, p_status = Some Away,
     p_last_seen = None, p_current_page = None, p_cursor_position = None,
     p_selection = None, p_metadata = None \<rparr>"

text \<open>A data store with one team, its owner and one invite, a hook of a signed-in user on
  it, and a store that accepts every write.\<close>

definition ok_responses :: responses where
  "ok_responses = \<lparr> member_insert_error = None, new_member_id = ''m9'',
     invite_update_ok = True, settings_update_error = None, activity_insert_ok = True \<rparr>"

definition example_team :: Team where
  "example_team = \<lparr> t_id = ''t1'', max_members = 3,
     settings = [(''notifications'', JObj [(''email'', JBool True)]),
                 (''permissions'', JObj [(''invite_members'', JArr [JStr ''owner''])])] \<rparr>"

definition example_owner :: TeamMember where
  "example_owner = \<lparr> m_id = ''m1'', m_team_id = ''t1'', m_user_id = ''u1'', role = Owner,
     m_is_active = True \<rparr>"

text \<open>An invite of team t1 with code ABCD2345, expiring at time 100.\<close>

definition example_invite :: "int option \<Rightarrow> int \<Rightarrow> TeamInvite" where
  "example_invite m n = \<lparr> i_id = ''i1'', i_team_id = ''t1'', invite_code = ''ABCD2345'',
     expires_at = 100, max_uses = m, current_uses = n, is_active = True \<rparr>"

definition example_store :: "TeamInvite \<Rightarrow> TeamMember list \<Rightarrow> store" where
  "example_store invite ms = \<lparr> teams = [example_team], team_invites = [invite],
     team_members = example_owner # ms, team_activities = [] \<rparr>"

definition example_collab :: "string \<Rightarrow> store \<Rightarrow> collab" where
  "example_collab uid d = \<lparr> c_user = Some uid, teamId = ''t1'', db = d, c_error = None \<rparr>"

text \<open>The test of the source on the uses of an invite: \<open>max_uses\<close> is set and not zero,
  and \<open>current_uses\<close> has reached it.\<close>

definition exhausted :: "TeamInvite \<Rightarrow> bool" where
  "exhausted invite = (case max_uses invite of None \<Rightarrow> False | Some m \<Rightarrow> m \<noteq> 0 \<and> current_uses invite \<ge> m)"

text \<open>A membership row of user u2 in team t1 that was removed (soft delete).\<close>

definition removed_member :: TeamMember where
  "removed_member = \<lparr> m_id = ''m2'', m_team_id = ''t1'', m_user_id = ''u2'', role = Member,
     m_is_active = False \<rparr>"

definition new_notifications :: settings_object where
  "new_notifications = [(''notifications'', JObj [(''email'', JBool False)])]"

section \<open>Properties of the connection manager\<close>

subsection \<open>Reconnect delay\<close>

text \<open>
  Claim C4. For every attempt number \<open>a\<close> and every jitter \<open>j\<close> in \<open>[0, 1000)\<close> (the value
  of \<open>Math.random() * 1000\<close>), the delay of \<open>getReconnectDelay\<close> lies between
  \<open>min (base * 2 ^ a) 30000\<close> and that value plus 1000, and the part without jitter,
  \<open>min (base * 2 ^ a) 30000\<close>, does not decrease when the attempt number grows. The base
  is the configured reconnect interval, a duration (not negative).
\<close>

theorem getReconnectDelay_bounds:
  assumes "0 \<le> j" "j < 1000" "0 \<le> reconnectInterval cfg" "a \<le> b"
  shows "min (reconnectInterval cfg * 2 ^ a) 30000 \<le> getReconnectDelay cfg (j / 1000) a
       \<and> getReconnectDelay cfg (j / 1000) a \<le> min (reconnectInterval cfg * 2 ^ a) 30000 + 1000
       \<and> getReconnectDelay cfg 0 a = min (reconnectInterval cfg * 2 ^ a) 30000
       \<and> getReconnectDelay cfg 0 a \<le> getReconnectDelay cfg 0 b"
proof -
  have "(2::real) ^ a \<le> 2 ^ b"
    using assms(4) by (simp add: power_increasing)
  then have "reconnectInterval cfg * 2 ^ a \<le> reconnectInterval cfg * 2 ^ b"
    using assms(3) by (simp add: mult_left_mono)
  then show ?thesis
    using assms(1,2) by (simp add: getReconnectDelay_def Let_def min_def)
qed

theorem getReconnectDelay_bounds_witness:
  "getReconnectDelay DEFAULT_CONFIG (500 / 1000) 3 = 8500
   \<and> getReconnectDelay DEFAULT_CONFIG 0 3 \<le> getReconnectDelay DEFAULT_CONFIG 0 6
   \<and> getReconnectDelay DEFAULT_CONFIG 0 6 = 30000"
  using getReconnectDelay_bounds [of 500 DEFAULT_CONFIG 3 6]
  by (simp add: getReconnectDelay_def DEFAULT_CONFIG_def Let_def)

subsection \<open>Retrying after a failed connection\<close>

lemma connect_fails_retrying:
  assumes "r_user r \<noteq> None" "\<not> isConnectingRef s"
    and "r_reconnect_attempts r < maxReconnectAttempts cfg"
  shows "retrying cfg r rnd (reconnect_attempts (connection s))
           (connect cfg r now rnd (Some msg) s)"
  using assms
  by (auto simp: retrying_def connect_def scheduleReconnect_def updateConnectionStatus_def
        setConnection_def Let_def)

lemma timer_fails_retrying:
  assumes "retrying cfg r rnd0 k s" "r_user r \<noteq> None"
    and "r_reconnect_attempts r < maxReconnectAttempts cfg"
  shows "retrying cfg r rnd (Suc k) (reconnectTimerFires cfg now rnd (Some msg) s)"
proof -
  have t: "reconnectTimeoutRef s
      = Some (getReconnectDelay cfg rnd0 (r_reconnect_attempts r), r)"
    using assms(1) by (simp add: retrying_def)
  let ?s1 = "setConnection (\<lambda>prev. prev\<lparr> reconnect_attempts := reconnect_attempts prev + 1 \<rparr>)
               (s\<lparr> reconnectTimeoutRef := None \<rparr>)"
  have "\<not> isConnectingRef ?s1" "reconnect_attempts (connection ?s1) = Suc k"
    using assms(1) by (simp_all add: retrying_def setConnection_def)
  then have "retrying cfg r rnd (Suc k) (connect cfg r now rnd (Some msg) ?s1)"
    using connect_fails_retrying [OF assms(2) _ assms(3), of ?s1 rnd now msg] by simp
  then show ?thesis
    using t by (simp add: reconnectTimerFires_def)
qed

lemma last_draw_Cons: "last_draw rnd0 ((now, rnd, msg) # rs) = last_draw rnd rs"
  by (simp add: last_draw_def)

lemma failed_retries_retrying:
  "retrying cfg r rnd k s \<Longrightarrow> r_user r \<noteq> None
   \<Longrightarrow> r_reconnect_attempts r < maxReconnectAttempts cfg
   \<Longrightarrow> retrying cfg r (last_draw rnd rs) (k + length rs) (failed_retries cfg rs s)"
proof (induction rs arbitrary: rnd k s)
  case Nil
  then show ?case by (simp add: last_draw_def)
next
  case (Cons x rs)
  obtain now rnd' msg where x: "x = (now, rnd', msg)"
    by (cases x) auto
  have "retrying cfg r rnd' (Suc k) (reconnectTimerFires cfg now rnd' (Some msg) s)"
    using Cons.prems by (rule timer_fails_retrying)
  from Cons.IH [OF this Cons.prems(2,3)] show ?case
    by (simp add: x last_draw_Cons)
qed

text \<open>A failed connection attempt of a render whose counter is below the maximum, and any
  number of failed retries after it, leave the hook retrying: the closures that the timer
  keeps calling are those of that render, so the counter they test never grows, the
  status never becomes \<open>error\<close>, and the delay never grows either. The counter of the
  state cell counts the retries that fired.\<close>

lemma stale_retries_keep_retrying:
  assumes "r_user r \<noteq> None" "\<not> isConnectingRef s"
    and "r_reconnect_attempts r < maxReconnectAttempts cfg"
  shows "retrying cfg r (last_draw rnd rs) (reconnect_attempts (connection s) + length rs)
           (failed_retries cfg rs (connect cfg r now rnd (Some msg) s))"
  using failed_retries_retrying [OF connect_fails_retrying [OF assms] assms(1,3)] .

lemma timer_idle:
  "reconnectTimeoutRef s = None \<Longrightarrow> reconnectTimerFires cfg now rnd probe s = s"
  by (simp add: reconnectTimerFires_def)

text \<open>Scheduling a retry does not touch the counter; the counter changes when the timer's
  callback runs.\<close>

lemma scheduleReconnect_attempts:
  "reconnect_attempts (connection (scheduleReconnect cfg r now rnd s))
     = reconnect_attempts (connection s)"
  by (simp add: scheduleReconnect_def updateConnectionStatus_def setConnection_def Let_def)

text \<open>
  Claim C3. Once \<open>maxReconnectAttempts\<close> (10 by default) connection attempts in a row have
  failed, the status is \<open>error\<close> and \<open>scheduleReconnect\<close> schedules no further retry; the
  counter \<open>reconnect_attempts\<close> is incremented when a retry timer fires, not when it is
  scheduled. The source tests the counter against the maximum, but the counter it reads
  is the one of the render that made the closure, and the timer's callback keeps calling
  the \<open>connect\<close> of that same render. Evaluated with the default configuration, for a
  signed-in user whose connectivity query always fails: after the first failed attempt
  and eleven failed retries (twelve failures in a row) the counter of the state cell is
  11, and yet the status is \<open>reconnecting\<close> and a retry timer is pending, with the delay
  of attempt 0 (1000 ms, the jitter being 0 here).
\<close>

theorem stale_closure_keeps_retrying:
  "status (connection (failed_retries DEFAULT_CONFIG (replicate 11 (0, 0, ''offline''))
      (connect DEFAULT_CONFIG (current_render (initial (Some ''u1'') 0)) 0 0 (Some ''offline'')
         (initial (Some ''u1'') 0)))) = Reconnecting
   \<and> reconnectTimeoutRef (failed_retries DEFAULT_CONFIG (replicate 11 (0, 0, ''offline''))
      (connect DEFAULT_CONFIG (current_render (initial (Some ''u1'') 0)) 0 0 (Some ''offline'')
         (initial (Some ''u1'') 0)))
       = Some (1000, \<lparr> r_user = Some ''u1'', r_reconnect_attempts = 0 \<rparr>)
   \<and> reconnect_attempts (connection (failed_retries DEFAULT_CONFIG
      (replicate 11 (0, 0, ''offline''))
      (connect DEFAULT_CONFIG (current_render (initial (Some ''u1'') 0)) 0 0 (Some ''offline'')
         (initial (Some ''u1'') 0)))) = 11"
  by (simp add: eval_nat_numeral initial_def DEFAULT_CONFIG_def connect_def current_render_def
        reconnectTimerFires_def scheduleReconnect_def updateConnectionStatus_def
        setConnection_def Let_def getReconnectDelay_def)

subsection \<open>Disconnecting\<close>



subsection \<open>Reference counting of channels\<close>

lemma set_alist_update: "set (AList.update k v al) \<subseteq> insert (k, v) (set al)"
  by (induction al) auto

lemma set_alist_delete: "set (AList.delete k al) \<subseteq> set al"
  by (auto simp: AList.delete_eq)

lemma alist_delete_Nil:
  assumes "AList.delete k al = []" "distinct (map fst al)" "al \<noteq> []"
  shows "length al = 1"
proof -
  have "\<forall>p \<in> set al. fst p = k" using assms(1) by (auto simp: AList.delete_eq filter_empty_conv)
  then show ?thesis using assms(2,3)
  proof (cases al)
    case Nil with assms(3) show ?thesis by simp
  next
    case (Cons p ps)
    show ?thesis
    proof (cases ps)
      case Nil with Cons show ?thesis by simp
    next
      case (Cons q qs)
      with \<open>al = p # ps\<close> \<open>\<forall>p \<in> set al. fst p = k\<close> assms(2) show ?thesis by auto
    qed
  qed
qed

lemma channels_okD:
  assumes "channels_ok s" "map_of (channelsRef s) c = Some sub"
  shows "channel sub = c" "callbacks sub \<noteq> []" "distinct (map fst (callbacks sub))"
proof -
  have "(c, sub) \<in> set (channelsRef s)" using assms(2) by (rule map_of_SomeD)
  then show "channel sub = c" "callbacks sub \<noteq> []" "distinct (map fst (callbacks sub))"
    using assms(1) by (auto simp: channels_ok_def list_all_iff)
qed

lemma channels_ok_update:
  assumes "channels_ok s" "channel sub = c" "callbacks sub \<noteq> []" "distinct (map fst (callbacks sub))"
    and "channelsRef s' = AList.update c sub (channelsRef s)"
  shows "channels_ok s'"
  using assms set_alist_update [of c sub "channelsRef s"]
  by (auto simp: channels_ok_def list_all_iff distinct_update)

lemma channels_ok_delete:
  assumes "channels_ok s" "channelsRef s' = AList.delete c (channelsRef s)"
  shows "channels_ok s'"
  using assms set_alist_delete [of c "channelsRef s"]
  by (auto simp: channels_ok_def list_all_iff distinct_delete)

lemma count_zero_iff:
  "channels_ok s \<Longrightarrow> callback_count s c = 0 \<longleftrightarrow> map_of (channelsRef s) c = None"
  by (auto simp: callback_count_def dest: channels_okD split: option.splits)


lemma subscribe_not_connected:
  "user s = None \<or> status (connection s) \<noteq> Connected \<Longrightarrow> subscribe now c cb i s = (Noop, s)"
  by (auto simp: subscribe_def split: option.splits)

lemma subscribe_new:
  assumes "user s = Some uid" "status (connection s) = Connected" "map_of (channelsRef s) c = None"
  shows "subscribe now c cb i s = (RemoveCallback c i,
     s\<lparr> transport := transport s @ [ChannelCreated c uid],
        channelsRef := AList.update c \<lparr> channel = c, callbacks = [(i, cb)], lastActivity = now \<rparr> (channelsRef s),
        connection := (connection s)\<lparr> subscriptions := subscriptions (connection s) @ [c] \<rparr> \<rparr>)"
  using assms by (simp add: subscribe_def setConnection_def Let_def)

lemma subscribe_existing:
  assumes "user s = Some uid" "status (connection s) = Connected" "map_of (channelsRef s) c = Some sub"
  shows "subscribe now c cb i s = (RemoveCallback c i,
     s\<lparr> channelsRef := AList.update c (sub\<lparr> callbacks := AList.update i cb (callbacks sub) \<rparr>) (channelsRef s) \<rparr>)"
  using assms by (simp add: subscribe_def setConnection_def Let_def)

lemma call_absent:
  "map_of (channelsRef s) c = None \<Longrightarrow> call_unsubscribe_fn (RemoveCallback c i) s = s"
  by (simp add: call_unsubscribe_fn_def)

lemma call_last:
  assumes "map_of (channelsRef s) c = Some sub" "AList.delete i (callbacks sub) = []"
  shows "call_unsubscribe_fn (RemoveCallback c i) s =
     s\<lparr> transport := transport s @ [ChannelUnsubscribed (channel sub)],
        channelsRef := AList.delete c (channelsRef s),
        connection := (connection s)\<lparr> subscriptions := filter (\<lambda>x. x \<noteq> c) (subscriptions (connection s)) \<rparr> \<rparr>"
  using assms by (simp add: call_unsubscribe_fn_def setConnection_def Let_def)

lemma call_other:
  assumes "map_of (channelsRef s) c = Some sub" "AList.delete i (callbacks sub) \<noteq> []"
  shows "call_unsubscribe_fn (RemoveCallback c i) s =
     s\<lparr> channelsRef := AList.update c (sub\<lparr> callbacks := AList.delete i (callbacks sub) \<rparr>) (channelsRef s) \<rparr>"
  using assms by (simp add: call_unsubscribe_fn_def setConnection_def Let_def)



lemma bound_entries:
  "distinct (map fst al) \<Longrightarrow>
   length (filter (\<lambda>(name, sub). name = c) al) = (if map_of al c = None then 0 else 1)"
proof (induction al)
  case Nil
  then show ?case by simp
next
  case (Cons p al)
  obtain n v where p: "p = (n, v)" by (cases p)
  show ?case
  proof (cases "n = c")
    case True
    then have "c \<notin> fst ` set al" using Cons.prems p by auto
    then have "filter (\<lambda>(name, sub). name = c) al = []"
      by (force simp: filter_empty_conv)
    then show ?thesis using True p by simp
  next
    case False
    then show ?thesis using Cons p by simp
  qed
qed

lemma creations_append [simp]:
  "creations c (s\<lparr> transport := transport s @ ts \<rparr>) = creations c s + length (filter (is_creation c) ts)"
  by (simp add: creations_def)

lemma teardowns_append [simp]:
  "teardowns c (s\<lparr> transport := transport s @ ts \<rparr>) = teardowns c s + length (filter (is_teardown c) ts)"
  by (simp add: teardowns_def)

lemma count_after_update:
  "channelsRef s' = AList.update n sub (channelsRef s) \<Longrightarrow>
   callback_count s' c = (if c = n then length (callbacks sub) else callback_count s c)"
  by (simp add: callback_count_def update_conv')

lemma count_after_delete:
  "channelsRef s' = AList.delete n (channelsRef s) \<Longrightarrow>
   callback_count s' c = (if c = n then 0 else callback_count s c)"
  by (simp add: callback_count_def delete_conv')

lemma count_pos:
  "channels_ok s \<Longrightarrow> map_of (channelsRef s) c = Some sub \<Longrightarrow> callback_count s c = length (callbacks sub) \<and> 0 < length (callbacks sub)"
  by (auto simp: callback_count_def dest: channels_okD)

lemma entries_delete:
  "length (filter (\<lambda>(name, sub). name = c) (AList.delete n al))
     = (if c = n then 0 else length (filter (\<lambda>(name, sub). name = c) al))"
  by (induction al) (auto simp: )

lemma entries_update:
  "distinct (map fst al) \<Longrightarrow> length (filter (\<lambda>(name, sub). name = c) (AList.update n v al))
     = (if c = n then 1 else length (filter (\<lambda>(name, sub). name = c) al))"
  using bound_entries [of "AList.update n v al" c] bound_entries [of al c]
  by (simp add: distinct_update update_conv')

lemma entries_bound:
  "channels_ok s \<Longrightarrow> length (filter (\<lambda>(name, sub). name = c) (channelsRef s))
     = (if map_of (channelsRef s) c = None then 0 else 1)"
  by (simp add: channels_ok_def bound_entries)

lemma balanced_iff:
  "channels_ok s \<Longrightarrow> balanced c s \<longleftrightarrow>
     creations c s = teardowns c s + (if map_of (channelsRef s) c = None then 0 else 1)"
  by (simp add: balanced_def entries_bound)


lemma step_ok_same: "channels_ok s \<Longrightarrow> step cfg s e = s \<Longrightarrow> step_ok cfg c s e"
  by (auto simp: step_ok_def)

lemma subscribe_step_ok:
  assumes ok: "channels_ok s"
  shows "step_ok cfg c s (Subscribe now n cb i)"
proof (cases "user s = None \<or> status (connection s) \<noteq> Connected")
  case True
  then show ?thesis using ok by (intro step_ok_same) (simp_all add: subscribe_not_connected)
next
  case False
  then obtain uid where u: "user s = Some uid" "status (connection s) = Connected" by auto
  show ?thesis
  proof (cases "map_of (channelsRef s) n")
    case None
    let ?sub = "\<lparr> channel = n, callbacks = [(i, cb)], lastActivity = now \<rparr>"
    let ?s' = "step cfg s (Subscribe now n cb i)"
    have s': "?s' = s\<lparr> transport := transport s @ [ChannelCreated n uid],
        channelsRef := AList.update n ?sub (channelsRef s),
        connection := (connection s)\<lparr> subscriptions := subscriptions (connection s) @ [n] \<rparr> \<rparr>"
      using subscribe_new [OF u None] by simp
    have ch: "channelsRef ?s' = AList.update n ?sub (channelsRef s)" unfolding s' by simp
    have 1: "channels_ok ?s'" using channels_ok_update [OF ok _ _ _ ch] by simp
    have 2: "callback_count ?s' c = (if c = n then 1 else callback_count s c)"
      using count_after_update [OF ch, of c] by simp
    have 3: "callback_count s n = 0" using None by (simp add: callback_count_def)
    have 4: "creations c ?s' = creations c s + (if c = n then 1 else 0)"
      unfolding s' by (simp add: creations_def)
    have 5: "teardowns c ?s' = teardowns c s"
      unfolding s' by (simp add: teardowns_def)
    have 7: "map_of (channelsRef ?s') c = (if c = n then Some ?sub else map_of (channelsRef s) c)"
      unfolding ch by (simp add: update_conv')
    have 8: "balanced c s \<longrightarrow> balanced c ?s'"
      unfolding balanced_iff [OF ok] balanced_iff [OF 1] 4 5 7 using None by auto
    show ?thesis unfolding step_ok_def using 1 2 3 4 5 8 by auto
  next
    case (Some sub)
    let ?sub = "sub\<lparr> callbacks := AList.update i cb (callbacks sub) \<rparr>"
    let ?s' = "step cfg s (Subscribe now n cb i)"
    have s': "?s' = s\<lparr> channelsRef := AList.update n ?sub (channelsRef s) \<rparr>"
      using subscribe_existing [OF u Some] by simp
    have ch: "channelsRef ?s' = AList.update n ?sub (channelsRef s)" unfolding s' by simp
    have 1: "channels_ok ?s'"
      using channels_ok_update [OF ok _ _ _ ch] channels_okD [OF ok Some]
      by (simp add: distinct_update)
    have 2: "callback_count ?s' c = (if c = n then length (AList.update i cb (callbacks sub)) else callback_count s c)"
      using count_after_update [OF ch, of c] by simp
    have 3: "0 < callback_count s n" using count_pos [OF ok Some] by simp
    have 6: "AList.update i cb (callbacks sub) \<noteq> []" by simp
    have 4: "creations c ?s' = creations c s" unfolding s' by (simp add: creations_def)
    have 5: "teardowns c ?s' = teardowns c s" unfolding s' by (simp add: teardowns_def)
    have 7: "map_of (channelsRef ?s') c = (if c = n then Some ?sub else map_of (channelsRef s) c)"
      unfolding ch by (simp add: update_conv')
    have 8: "balanced c s \<longrightarrow> balanced c ?s'"
      unfolding balanced_iff [OF ok] balanced_iff [OF 1] 4 5 7 using Some by auto
    show ?thesis unfolding step_ok_def using 1 2 3 4 5 6 8 by auto
  qed
qed

lemma call_step_ok:
  assumes ok: "channels_ok s"
  shows "step_ok cfg c s (CallUnsubscribeFn f)"
proof (cases f)
  case Noop
  then show ?thesis using ok by (intro step_ok_same) (simp_all add: call_unsubscribe_fn_def)
next
  case (RemoveCallback n i)
  show ?thesis
  proof (cases "map_of (channelsRef s) n")
    case None
    then show ?thesis using ok RemoveCallback by (intro step_ok_same) (simp_all add: call_absent)
  next
    case (Some sub)
    note D = channels_okD [OF ok Some]
    let ?s' = "step cfg s (CallUnsubscribeFn f)"
    show ?thesis
    proof (cases "AList.delete i (callbacks sub) = []")
      case True
      have s': "?s' = s\<lparr> transport := transport s @ [ChannelUnsubscribed n],
          channelsRef := AList.delete n (channelsRef s),
          connection := (connection s)\<lparr> subscriptions := filter (\<lambda>x. x \<noteq> n) (subscriptions (connection s)) \<rparr> \<rparr>"
        using call_last [OF Some True] RemoveCallback D(1) by simp
      have ch: "channelsRef ?s' = AList.delete n (channelsRef s)" unfolding s' by simp
      have 1: "channels_ok ?s'" using channels_ok_delete [OF ok ch] .
      have 2: "callback_count ?s' c = (if c = n then 0 else callback_count s c)"
        using count_after_delete [OF ch, of c] .
      have 3: "callback_count s n = 1"
        using alist_delete_Nil [OF True D(3) D(2)] count_pos [OF ok Some] by simp
      have 4: "creations c ?s' = creations c s" unfolding s' by (simp add: creations_def)
      have 5: "teardowns c ?s' = teardowns c s + (if c = n then 1 else 0)"
        unfolding s' by (simp add: teardowns_def)
      have 7: "map_of (channelsRef ?s') c = (if c = n then None else map_of (channelsRef s) c)"
        unfolding ch by (simp add: delete_conv')
      have 8: "balanced c s \<longrightarrow> balanced c ?s'"
        unfolding balanced_iff [OF ok] balanced_iff [OF 1] 4 5 7 using Some by auto
      show ?thesis unfolding step_ok_def using 1 2 3 4 5 8 by auto
    next
      case False
      let ?sub = "sub\<lparr> callbacks := AList.delete i (callbacks sub) \<rparr>"
      have s': "?s' = s\<lparr> channelsRef := AList.update n ?sub (channelsRef s) \<rparr>"
        using call_other [OF Some False] RemoveCallback by simp
      have ch: "channelsRef ?s' = AList.update n ?sub (channelsRef s)" unfolding s' by simp
      have 1: "channels_ok ?s'"
        using channels_ok_update [OF ok _ _ _ ch] D False by (simp add: distinct_delete)
      have 2: "callback_count ?s' c = (if c = n then length (AList.delete i (callbacks sub)) else callback_count s c)"
        using count_after_update [OF ch, of c] by simp
      have 3: "0 < callback_count s n" using count_pos [OF ok Some] by simp
      have 4: "creations c ?s' = creations c s" unfolding s' by (simp add: creations_def)
      have 5: "teardowns c ?s' = teardowns c s" unfolding s' by (simp add: teardowns_def)
      have 7: "map_of (channelsRef ?s') c = (if c = n then Some ?sub else map_of (channelsRef s) c)"
        unfolding ch by (simp add: update_conv')
      have 8: "balanced c s \<longrightarrow> balanced c ?s'"
        unfolding balanced_iff [OF ok] balanced_iff [OF 1] 4 5 7 using Some by auto
      show ?thesis unfolding step_ok_def using 1 2 3 4 5 8 False by auto
    qed
  qed
qed

lemma refcount_step_ok:
  "channels_ok s \<Longrightarrow> refcount_event e \<Longrightarrow> step_ok cfg c s e"
  by (cases e) (simp_all add: subscribe_step_ok call_step_ok)

lemma refcount_run:
  "channels_ok s \<Longrightarrow> list_all refcount_event evs \<Longrightarrow>
   channels_ok (run cfg s evs)
   \<and> creations c (run cfg s evs) = creations c s + rises cfg c s evs
   \<and> teardowns c (run cfg s evs) = teardowns c s + falls cfg c s evs
   \<and> (balanced c s \<longrightarrow> balanced c (run cfg s evs))"
proof (induction evs arbitrary: s)
  case Nil
  then show ?case by (simp add: run_def)
next
  case (Cons e evs)
  have st: "step_ok cfg c s e" using Cons.prems by (intro refcount_step_ok) simp_all
  then have ok': "channels_ok (step cfg s e)" by (simp add: step_ok_def)
  from Cons.IH [OF ok'] Cons.prems(2)
  have IH: "channels_ok (run cfg (step cfg s e) evs)"
    "creations c (run cfg (step cfg s e) evs) = creations c (step cfg s e) + rises cfg c (step cfg s e) evs"
    "teardowns c (run cfg (step cfg s e) evs) = teardowns c (step cfg s e) + falls cfg c (step cfg s e) evs"
    "balanced c (step cfg s e) \<longrightarrow> balanced c (run cfg (step cfg s e) evs)"
    by simp_all
  have r: "run cfg s (e # evs) = run cfg (step cfg s e) evs" by (simp add: run_def)
  show ?case using IH st unfolding r step_ok_def by simp
qed


lemma connect_keeps:
  "channelsRef (connect cfg r now rnd probe s) = channelsRef s"
  "transport (connect cfg r now rnd probe s) = transport s"
  by (simp_all add: connect_def scheduleReconnect_def updateConnectionStatus_def
        setConnection_def startHeartbeat_def Let_def split: option.splits)

lemma timer_keeps:
  "channelsRef (reconnectTimerFires cfg now rnd probe s) = channelsRef s"
  "transport (reconnectTimerFires cfg now rnd probe s) = transport s"
  by (simp_all add: reconnectTimerFires_def connect_keeps setConnection_def
        split: option.splits prod.splits)

lemma updatePresence_keeps:
  "channelsRef (updatePresence now p s) = channelsRef s"
  "filter (is_creation c) (transport (updatePresence now p s)) = filter (is_creation c) (transport s)"
  "filter (is_teardown c) (transport (updatePresence now p s)) = filter (is_teardown c) (transport s)"
  by (auto simp: updatePresence_def track_presence_channels_def Let_def filter_empty_conv
        split: option.splits)

lemma channels_ok_same:
  "channels_ok s \<Longrightarrow> channelsRef s' = channelsRef s \<Longrightarrow> channels_ok s'"
  by (simp add: channels_ok_def)

lemma balanced_same:
  "balanced c s \<Longrightarrow> channelsRef s' = channelsRef s
   \<Longrightarrow> filter (is_creation c) (transport s') = filter (is_creation c) (transport s)
   \<Longrightarrow> filter (is_teardown c) (transport s') = filter (is_teardown c) (transport s)
   \<Longrightarrow> balanced c s'"
  by (simp add: balanced_def creations_def teardowns_def)

lemma teardown_entries:
  "list_all (\<lambda>(name, sub). channel sub = name) al \<Longrightarrow>
   length (filter (is_teardown c) (map (\<lambda>(name, sub). ChannelUnsubscribed (channel sub)) al))
     = length (filter (\<lambda>(name, sub). name = c) al)"
  by (induction al) auto

lemma disconnect_ok:
  assumes "channels_ok s"
  shows "channels_ok (disconnect now s)"
  by (simp add: channels_ok_def disconnect_def Let_def stopHeartbeat_def
        updateConnectionStatus_def setConnection_def)

lemma creation_unsubs:
  "filter (is_creation c) (map (\<lambda>(name, sub). ChannelUnsubscribed (channel sub)) al) = []"
  by (induction al) auto

lemma disconnect_balanced:
  assumes "channels_ok s" "balanced c s"
  shows "balanced c (disconnect now s)"
proof -
  have "list_all (\<lambda>(name, sub). channel sub = name) (channelsRef s)"
    using assms(1) by (auto simp: channels_ok_def list_all_iff)
  note t = teardown_entries [OF this, of c]
  have tr: "transport (disconnect now s)
        = transport s @ map (\<lambda>(name, sub). ChannelUnsubscribed (channel sub)) (channelsRef s)"
    and ch: "channelsRef (disconnect now s) = []"
    by (simp_all add: disconnect_def Let_def stopHeartbeat_def updateConnectionStatus_def
          setConnection_def)
  show ?thesis
    unfolding balanced_def creations_def teardowns_def tr ch
    using assms(2) t
    by (simp del: filter_map add: creation_unsubs balanced_def creations_def teardowns_def)
qed

lemma unsubscribe_eq_call:
  "map_of (channelsRef s) n = None \<Longrightarrow> unsubscribe n s = s"
  by (simp add: unsubscribe_def)

lemma unsubscribe_bound:
  "map_of (channelsRef s) n = Some sub \<Longrightarrow> unsubscribe n s =
     s\<lparr> transport := transport s @ [ChannelUnsubscribed (channel sub)],
        channelsRef := AList.delete n (channelsRef s),
        connection := (connection s)\<lparr> subscriptions := filter (\<lambda>x. x \<noteq> n) (subscriptions (connection s)) \<rparr> \<rparr>"
  by (simp add: unsubscribe_def setConnection_def)

lemma unsubscribe_ok:
  assumes "channels_ok s"
  shows "channels_ok (unsubscribe n s)"
proof (cases "map_of (channelsRef s) n")
  case None
  then show ?thesis using assms by (simp add: unsubscribe_eq_call)
next
  case (Some sub)
  show ?thesis
    by (rule channels_ok_delete [OF assms, of _ n]) (simp add: unsubscribe_bound [OF Some])
qed

lemma unsubscribe_balanced:
  assumes "channels_ok s" "balanced c s"
  shows "balanced c (unsubscribe n s)"
proof (cases "map_of (channelsRef s) n")
  case None
  then show ?thesis using assms by (simp add: unsubscribe_eq_call)
next
  case (Some sub)
  have d: "distinct (map fst (channelsRef s))" using assms(1) by (simp add: channels_ok_def)
  have "channel sub = n" using channels_okD(1) [OF assms(1) Some] .
  then show ?thesis
    using assms(2) bound_entries [OF d, of n] Some
    by (auto simp: balanced_def creations_def teardowns_def unsubscribe_bound [OF Some] entries_delete)
qed


lemma step_invariants:
  assumes "channels_ok s"
  shows "channels_ok (step cfg s e) \<and> (balanced c s \<longrightarrow> balanced c (step cfg s e))"
proof (cases e)
  case (Connect now rnd probe)
  then show ?thesis using assms
    by (auto intro: channels_ok_same balanced_same simp: connect_keeps)
next
  case (TimerFires now rnd probe)
  then show ?thesis using assms
    by (auto intro: channels_ok_same balanced_same simp: timer_keeps)
next
  case (Disconnect now)
  then show ?thesis using assms by (simp add: disconnect_ok disconnect_balanced)
next
  case (Subscribe now n cb i)
  then show ?thesis using refcount_step_ok [OF assms, of e cfg c] by (simp add: step_ok_def)
next
  case (CallUnsubscribeFn f)
  then show ?thesis using refcount_step_ok [OF assms, of e cfg c] by (simp add: step_ok_def)
next
  case (Unsubscribe n)
  then show ?thesis using assms by (simp add: unsubscribe_ok unsubscribe_balanced)
next
  case (UpdatePresence now p)
  then show ?thesis using assms
    by (auto intro: channels_ok_same balanced_same simp: updatePresence_keeps)
qed

lemma run_invariants:
  "channels_ok s \<Longrightarrow> channels_ok (run cfg s evs) \<and> (balanced c s \<longrightarrow> balanced c (run cfg s evs))"
proof (induction evs arbitrary: s)
  case Nil
  then show ?case by (simp add: run_def)
next
  case (Cons e evs)
  have r: "run cfg s (e # evs) = run cfg (step cfg s e) evs" by (simp add: run_def)
  from step_invariants [OF Cons.prems, of cfg e c] Cons.IH [of "step cfg s e"]
  show ?case unfolding r by blast
qed

lemma initial_invariants: "channels_ok (initial u t0)" "balanced c (initial u t0)"
  by (simp_all add: channels_ok_def balanced_def initial_def creations_def teardowns_def)

lemma run_append: "run cfg s (xs @ ys) = run cfg (run cfg s xs) ys"
  by (simp add: run_def)

text \<open>
  Claim C1. Take any state that a run of the hook reaches, and from it any sequence of
  \<open>subscribe\<close> calls and calls of the unsubscribe functions that \<open>subscribe\<close> returned (on
  any channel names). For every channel name \<open>c\<close>, the number of physical channels
  created for \<open>c\<close> during the sequence equals the number of steps at which the number of
  callbacks registered for \<open>c\<close> goes from 0 to 1, and the number of physical channels
  torn down equals the number of steps at which it goes from 1 to 0. At every
  intermediate state the subscription map has at most one entry for \<open>c\<close>, and the
  physical channels of \<open>c\<close> created and not yet torn down are exactly that entry.
\<close>

theorem reference_counting:
  assumes "s = run cfg (initial u t0) history" "list_all refcount_event evs"
  shows "creations c (run cfg s evs) = creations c s + rises cfg c s evs
     \<and> teardowns c (run cfg s evs) = teardowns c s + falls cfg c s evs
     \<and> (\<forall>k \<le> length evs.
          length (filter (\<lambda>(name, sub). name = c) (channelsRef (run cfg s (take k evs)))) \<le> 1
          \<and> creations c (run cfg s (take k evs))
              = teardowns c (run cfg s (take k evs))
                + length (filter (\<lambda>(name, sub). name = c) (channelsRef (run cfg s (take k evs)))))"
proof -
  have "channels_ok (run cfg (initial u t0) history)
      \<and> (balanced c (initial u t0) \<longrightarrow> balanced c (run cfg (initial u t0) history))"
    by (rule run_invariants [OF initial_invariants(1)])
  then have ok: "channels_ok s" and bal: "balanced c s"
    by (simp_all add: assms(1) initial_invariants(2))
  have "length (filter (\<lambda>(name, sub). name = c) (channelsRef (run cfg s (take k evs)))) \<le> 1
          \<and> creations c (run cfg s (take k evs))
              = teardowns c (run cfg s (take k evs))
                + length (filter (\<lambda>(name, sub). name = c) (channelsRef (run cfg s (take k evs))))"
    for k
  proof -
    have "channels_ok (run cfg s (take k evs))" "balanced c (run cfg s (take k evs))"
      using run_invariants [OF ok, of cfg "take k evs" c] bal by simp_all
    then show ?thesis
      using entries_bound [of "run cfg s (take k evs)" c] by (simp add: balanced_def)
  qed
  then show ?thesis using refcount_run [OF ok assms(2), of cfg c] by blast
qed

theorem reference_counting_witness:
  "creations ''team_presence_t1'' (run DEFAULT_CONFIG example_connected
      [Subscribe 1 ''team_presence_t1'' 7 ''callback_1_a'',
       Subscribe 2 ''team_presence_t1'' 8 ''callback_2_b'',
       CallUnsubscribeFn (RemoveCallback ''team_presence_t1'' ''callback_1_a''),
       CallUnsubscribeFn (RemoveCallback ''team_presence_t1'' ''callback_2_b''),
       Subscribe 3 ''team_presence_t1'' 9 ''callback_3_c'']) = 2
   \<and> teardowns ''team_presence_t1'' (run DEFAULT_CONFIG example_connected
      [Subscribe 1 ''team_presence_t1'' 7 ''callback_1_a'',
       Subscribe 2 ''team_presence_t1'' 8 ''callback_2_b'',
       CallUnsubscribeFn (RemoveCallback ''team_presence_t1'' ''callback_1_a''),
       CallUnsubscribeFn (RemoveCallback ''team_presence_t1'' ''callback_2_b''),
       Subscribe 3 ''team_presence_t1'' 9 ''callback_3_c'']) = 1
   \<and> rises DEFAULT_CONFIG ''team_presence_t1'' example_connected
      [Subscribe 1 ''team_presence_t1'' 7 ''callback_1_a'',
       Subscribe 2 ''team_presence_t1'' 8 ''callback_2_b'',
       CallUnsubscribeFn (RemoveCallback ''team_presence_t1'' ''callback_1_a''),
       CallUnsubscribeFn (RemoveCallback ''team_presence_t1'' ''callback_2_b''),
       Subscribe 3 ''team_presence_t1'' 9 ''callback_3_c''] = 2
   \<and> falls DEFAULT_CONFIG ''team_presence_t1'' example_connected
      [Subscribe 1 ''team_presence_t1'' 7 ''callback_1_a'',
       Subscribe 2 ''team_presence_t1'' 8 ''callback_2_b'',
       CallUnsubscribeFn (RemoveCallback ''team_presence_t1'' ''callback_1_a''),
       CallUnsubscribeFn (RemoveCallback ''team_presence_t1'' ''callback_2_b''),
       Subscribe 3 ''team_presence_t1'' 9 ''callback_3_c''] = 1"
  using reference_counting [of example_connected DEFAULT_CONFIG "Some ''u1''" 0
      "[Connect 0 0 None]"
      "[Subscribe 1 ''team_presence_t1'' 7 ''callback_1_a'',
       Subscribe 2 ''team_presence_t1'' 8 ''callback_2_b'',
       CallUnsubscribeFn (RemoveCallback ''team_presence_t1'' ''callback_1_a''),
       CallUnsubscribeFn (RemoveCallback ''team_presence_t1'' ''callback_2_b''),
       Subscribe 3 ''team_presence_t1'' 9 ''callback_3_c'']" "''team_presence_t1''"]
  by (simp add: example_connected_def run_def callback_count_def creations_def teardowns_def
        subscribe_def connect_def current_render_def call_unsubscribe_fn_def
        initial_def updateConnectionStatus_def setConnection_def startHeartbeat_def Let_def)

subsection \<open>The unsubscribe function returned by subscribe\<close>

lemma keys_delete: "fst ` set (AList.delete k al) = fst ` set al - {k}"
  by (auto simp: AList.delete_eq)

lemma has_callback_same:
  "channelsRef s' = channelsRef s \<Longrightarrow> has_callback s' c i = has_callback s c i"
  by (simp add: has_callback_def)

lemma has_callback_update:
  "channelsRef s' = AList.update n sub (channelsRef s) \<Longrightarrow>
   has_callback s' c i = (if c = n then i \<in> fst ` set (callbacks sub) else has_callback s c i)"
  by (simp add: has_callback_def update_conv')

lemma has_callback_delete:
  "channelsRef s' = AList.delete n (channelsRef s) \<Longrightarrow>
   has_callback s' c i = (if c = n then False else has_callback s c i)"
  by (simp add: has_callback_def delete_conv')

lemma fn_cases: "fst (subscribe now c cb i s) = Noop \<or> fst (subscribe now c cb i s) = RemoveCallback c i"
  by (auto simp: subscribe_def Let_def split: option.splits prod.splits)

lemma call_isolated:
  assumes "(n, j) \<noteq> (c, i)"
  shows "has_callback (call_unsubscribe_fn (RemoveCallback c i) x) n j = has_callback x n j"
proof (cases "map_of (channelsRef x) c")
  case None
  then show ?thesis by (simp add: call_absent)
next
  case (Some sub)
  show ?thesis
  proof (cases "AList.delete i (callbacks sub) = []")
    case True
    have "fst ` set (callbacks sub) - {i} = {}" using True keys_delete [of i "callbacks sub"] by simp
    then have only: "j \<in> fst ` set (callbacks sub) \<Longrightarrow> j = i" by auto
    have "has_callback (call_unsubscribe_fn (RemoveCallback c i) x) n j
        = (if n = c then False else has_callback x n j)"
      by (rule has_callback_delete) (simp add: call_last [OF Some True])
    then show ?thesis using assms only Some by (auto simp: has_callback_def)
  next
    case False
    have "has_callback (call_unsubscribe_fn (RemoveCallback c i) x) n j
        = (if n = c then j \<in> fst ` set (callbacks (sub\<lparr> callbacks := AList.delete i (callbacks sub) \<rparr>)) else has_callback x n j)"
      by (rule has_callback_update) (simp add: call_other [OF Some False])
    then show ?thesis using assms Some by (auto simp: has_callback_def keys_delete)
  qed
qed

lemma call_removes:
  "\<not> has_callback (call_unsubscribe_fn (RemoveCallback c i) x) c i"
proof (cases "map_of (channelsRef x) c")
  case None
  then show ?thesis by (simp add: call_absent has_callback_def)
next
  case (Some sub)
  show ?thesis
  proof (cases "AList.delete i (callbacks sub) = []")
    case True
    have "has_callback (call_unsubscribe_fn (RemoveCallback c i) x) c i
        = (if c = c then False else has_callback x c i)"
      by (rule has_callback_delete) (simp add: call_last [OF Some True])
    then show ?thesis by simp
  next
    case False
    have "has_callback (call_unsubscribe_fn (RemoveCallback c i) x) c i
        = (if c = c then i \<in> fst ` set (callbacks (sub\<lparr> callbacks := AList.delete i (callbacks sub) \<rparr>)) else has_callback x c i)"
      by (rule has_callback_update) (simp add: call_other [OF Some False])
    then show ?thesis by (simp add: keys_delete)
  qed
qed

lemma call_noop:
  assumes "channels_ok x" "\<not> has_callback x c i"
  shows "call_unsubscribe_fn (RemoveCallback c i) x = x"
proof (cases "map_of (channelsRef x) c")
  case None
  then show ?thesis by (simp add: call_absent)
next
  case (Some sub)
  have "i \<notin> fst ` set (callbacks sub)" using assms(2) Some by (simp add: has_callback_def)
  then have d: "AList.delete i (callbacks sub) = callbacks sub" by simp
  have ne: "callbacks sub \<noteq> []" using channels_okD(2) [OF assms(1) Some] .
  have "AList.update c sub (channelsRef x) = channelsRef x"
    using Some by (rule update_triv)
  then show ?thesis using call_other [OF Some, of i] d ne by simp
qed

lemma step_keeps_absent:
  assumes "\<not> has_callback s c i" "\<not> adds_callback c i e"
  shows "\<not> has_callback (step cfg s e) c i"
proof (cases e)
  case (Connect now rnd probe)
  then show ?thesis using assms has_callback_same [of "step cfg s e" s c i] by (simp add: connect_keeps)
next
  case (TimerFires now rnd probe)
  then show ?thesis using assms has_callback_same [of "step cfg s e" s c i] by (simp add: timer_keeps)
next
  case (Disconnect now)
  then show ?thesis by (simp add: has_callback_def disconnect_def Let_def stopHeartbeat_def
     updateConnectionStatus_def setConnection_def)
next
  case (Subscribe now n cb j)
  show ?thesis
  proof (cases "user s = None \<or> status (connection s) \<noteq> Connected")
    case True
    then show ?thesis using assms Subscribe by (simp add: subscribe_not_connected)
  next
    case False
    then obtain uid where u: "user s = Some uid" "status (connection s) = Connected" by auto
    show ?thesis
    proof (cases "map_of (channelsRef s) n")
      case None
      have "has_callback (step cfg s e) c i
         = (if c = n then i \<in> fst ` set (callbacks \<lparr> channel = n, callbacks = [(j, cb)], lastActivity = now \<rparr>) else has_callback s c i)"
        by (rule has_callback_update) (simp add: Subscribe subscribe_new [OF u None])
      then show ?thesis using assms Subscribe by auto
    next
      case (Some sub)
      have "has_callback (step cfg s e) c i
         = (if c = n then i \<in> fst ` set (callbacks (sub\<lparr> callbacks := AList.update j cb (callbacks sub) \<rparr>)) else has_callback s c i)"
        by (rule has_callback_update) (simp add: Subscribe subscribe_existing [OF u Some])
      then have h: "has_callback (step cfg s e) c i
         = (if c = n then i = j \<or> i \<in> fst ` set (callbacks sub) else has_callback s c i)"
        by (simp add: dom_update)
      have "c = n \<Longrightarrow> i \<notin> fst ` set (callbacks sub)"
        using assms(1) Some by (simp add: has_callback_def)
      moreover have "c = n \<Longrightarrow> i \<noteq> j"
        using assms(2) Subscribe by auto
      ultimately show ?thesis
        unfolding h using assms(1) by auto
    qed
  qed
next
  case (CallUnsubscribeFn g)
  show ?thesis
  proof (cases g)
    case Noop
    then show ?thesis using assms CallUnsubscribeFn by (simp add: call_unsubscribe_fn_def)
  next
    case (RemoveCallback n j)
    show ?thesis
    proof (cases "(c, i) = (n, j)")
      case True
      then show ?thesis using call_removes [of c i s] CallUnsubscribeFn RemoveCallback by simp
    next
      case False
      then show ?thesis using call_isolated [of c i n j s] assms CallUnsubscribeFn RemoveCallback by simp
    qed
  qed
next
  case (Unsubscribe n)
  show ?thesis
  proof (cases "map_of (channelsRef s) n")
    case None
    then show ?thesis using assms Unsubscribe by (simp add: unsubscribe_eq_call)
  next
    case (Some sub)
    have "has_callback (step cfg s e) c i = (if c = n then False else has_callback s c i)"
      by (rule has_callback_delete) (simp add: Unsubscribe unsubscribe_bound [OF Some])
    then show ?thesis using assms by simp
  qed
next
  case (UpdatePresence now p)
  then show ?thesis using assms has_callback_same [of "step cfg s e" s c i] by (simp add: updatePresence_keeps)
qed

lemma run_keeps_absent:
  "\<not> has_callback s c i \<Longrightarrow> list_all (\<lambda>e. \<not> adds_callback c i e) evs
   \<Longrightarrow> \<not> has_callback (run cfg s evs) c i"
proof (induction evs arbitrary: s)
  case Nil
  then show ?case by (simp add: run_def)
next
  case (Cons e evs)
  have r: "run cfg s (e # evs) = run cfg (step cfg s e) evs" by (simp add: run_def)
  have "\<not> has_callback (step cfg s e) c i" using Cons.prems by (intro step_keeps_absent) simp_all
  from Cons.IH [OF this] Cons.prems(2) show ?case unfolding r by simp
qed

lemma unsubscribe_removes: "\<not> has_callback (unsubscribe c s) c i"
proof (cases "map_of (channelsRef s) c")
  case None
  then show ?thesis by (simp add: unsubscribe_eq_call has_callback_def)
next
  case (Some sub)
  have "has_callback (unsubscribe c s) c i = (if c = c then False else has_callback s c i)"
    by (rule has_callback_delete) (simp add: unsubscribe_bound [OF Some])
  then show ?thesis by simp
qed

lemma disconnect_removes: "\<not> has_callback (disconnect t s) c i"
  by (simp add: has_callback_def disconnect_def Let_def stopHeartbeat_def
     updateConnectionStatus_def setConnection_def)

lemma call_idem:
  "call_unsubscribe_fn f (call_unsubscribe_fn f x) = call_unsubscribe_fn f x"
proof (cases f)
  case Noop
  then show ?thesis by (simp add: call_unsubscribe_fn_def)
next
  case (RemoveCallback c i)
  show ?thesis
  proof (cases "map_of (channelsRef x) c")
    case None
    then show ?thesis by (simp add: RemoveCallback call_absent)
  next
    case (Some sub)
    show ?thesis
    proof (cases "AList.delete i (callbacks sub) = []")
      case True
      have "map_of (channelsRef (call_unsubscribe_fn (RemoveCallback c i) x)) c = None"
        by (simp add: call_last [OF Some True] delete_conv')
      then show ?thesis unfolding RemoveCallback by (rule call_absent)
    next
      case False
      let ?sub = "sub\<lparr> callbacks := AList.delete i (callbacks sub) \<rparr>"
      let ?x = "call_unsubscribe_fn (RemoveCallback c i) x"
      have x': "?x = x\<lparr> channelsRef := AList.update c ?sub (channelsRef x) \<rparr>"
        by (rule call_other [OF Some False])
      have b: "map_of (channelsRef ?x) c = Some ?sub"
        unfolding x' by (simp add: update_conv')
      have ne: "AList.delete i (callbacks ?sub) \<noteq> []"
        using False by (simp add: delete_idem)
      have "call_unsubscribe_fn (RemoveCallback c i) ?x
          = ?x\<lparr> channelsRef := AList.update c (?sub\<lparr> callbacks := AList.delete i (callbacks ?sub) \<rparr>) (channelsRef ?x) \<rparr>"
        by (rule call_other [OF b ne])
      also have "\<dots> = ?x"
        unfolding x' by (simp add: delete_idem)
      finally show ?thesis unfolding RemoveCallback .
    qed
  qed
qed

lemma has_callback_iff: "has_callback s c i \<longleftrightarrow> callback_of s c i \<noteq> None"
proof (cases "map_of (channelsRef s) c")
  case None
  then show ?thesis by (simp add: has_callback_def callback_of_def)
next
  case (Some sub)
  have "(i \<in> fst ` set (callbacks sub)) = (map_of (callbacks sub) i \<noteq> None)"
    by (simp add: map_of_eq_None_iff)
  then show ?thesis using Some by (simp add: has_callback_def callback_of_def)
qed

lemma callback_of_same:
  "channelsRef s' = channelsRef s \<Longrightarrow> callback_of s' c i = callback_of s c i"
  by (simp add: callback_of_def)

lemma callback_of_update:
  "channelsRef s' = AList.update n sub (channelsRef s) \<Longrightarrow>
   callback_of s' c i = (if c = n then map_of (callbacks sub) i else callback_of s c i)"
  by (simp add: callback_of_def update_conv')

lemma callback_of_delete:
  "channelsRef s' = AList.delete n (channelsRef s) \<Longrightarrow>
   callback_of s' c i = (if c = n then None else callback_of s c i)"
  by (simp add: callback_of_def delete_conv')

lemma delete_Nil_map_of:
  assumes "AList.delete i al = []" "j \<noteq> i"
  shows "map_of al j = None"
proof -
  have "fst ` set al - {i} = {}" using assms(1) keys_delete [of i al] by simp
  then have "j \<notin> fst ` set al" using assms(2) by auto
  then show ?thesis by (simp add: map_of_eq_None_iff)
qed

lemma call_isolated_entry:
  assumes "(n, j) \<noteq> (c, i)"
  shows "callback_of (call_unsubscribe_fn (RemoveCallback c i) x) n j = callback_of x n j"
proof (cases "map_of (channelsRef x) c")
  case None
  then show ?thesis by (simp add: call_absent)
next
  case (Some sub)
  show ?thesis
  proof (cases "AList.delete i (callbacks sub) = []")
    case True
    have "callback_of (call_unsubscribe_fn (RemoveCallback c i) x) n j
        = (if n = c then None else callback_of x n j)"
      by (rule callback_of_delete) (simp add: call_last [OF Some True])
    moreover have "n = c \<Longrightarrow> callback_of x n j = None"
      using assms Some delete_Nil_map_of [OF True, of j] by (simp add: callback_of_def)
    ultimately show ?thesis by simp
  next
    case False
    have "callback_of (call_unsubscribe_fn (RemoveCallback c i) x) n j
        = (if n = c then map_of (callbacks (sub\<lparr> callbacks := AList.delete i (callbacks sub) \<rparr>)) j
           else callback_of x n j)"
      by (rule callback_of_update) (simp add: call_other [OF Some False])
    moreover have "n = c \<Longrightarrow> map_of (AList.delete i (callbacks sub)) j = callback_of x n j"
      using assms Some by (simp add: callback_of_def delete_conv')
    ultimately show ?thesis by simp
  qed
qed

lemma length_alist_delete:
  "distinct (map fst al) \<Longrightarrow> k \<in> fst ` set al \<Longrightarrow> length (AList.delete k al) + 1 = length al"
proof (induction al)
  case Nil
  then show ?case by simp
next
  case (Cons p al)
  obtain k' v where p: "p = (k', v)" by (cases p)
  show ?case
  proof (cases "k' = k")
    case True
    then have "k \<notin> fst ` set al" using Cons.prems(1) p by auto
    then have "AList.delete k al = al" by simp
    then show ?thesis using True p by simp
  next
    case False
    then have "k \<in> fst ` set al" using Cons.prems(2) p by auto
    then show ?thesis using Cons False p by simp
  qed
qed

lemma call_removes_one:
  assumes ok: "channels_ok x" and has: "callback_of x c i \<noteq> None"
  shows "callback_of (call_unsubscribe_fn (RemoveCallback c i) x) c i = None
     \<and> callback_count (call_unsubscribe_fn (RemoveCallback c i) x) c + 1 = callback_count x c
     \<and> transport (call_unsubscribe_fn (RemoveCallback c i) x)
         = transport x @ (if callback_count x c = 1 then [ChannelUnsubscribed c] else [])"
proof -
  obtain sub where Some: "map_of (channelsRef x) c = Some sub"
    using has by (auto simp: callback_of_def split: option.splits)
  note D = channels_okD [OF ok Some]
  have "i \<in> fst ` set (callbacks sub)"
    using has Some by (simp add: callback_of_def map_of_eq_None_iff)
  then have len: "length (AList.delete i (callbacks sub)) + 1 = length (callbacks sub)"
    using D(3) by (rule length_alist_delete [rotated])
  have cnt: "callback_count x c = length (callbacks sub)"
    using Some by (simp add: callback_count_def)
  have gone: "callback_of (call_unsubscribe_fn (RemoveCallback c i) x) c i = None"
    using call_removes [of c i x] by (simp add: has_callback_iff)
  show ?thesis
  proof (cases "AList.delete i (callbacks sub) = []")
    case True
    let ?x = "call_unsubscribe_fn (RemoveCallback c i) x"
    have x': "?x = x\<lparr> transport := transport x @ [ChannelUnsubscribed c],
          channelsRef := AList.delete c (channelsRef x),
          connection := (connection x)\<lparr> subscriptions :=
             filter (\<lambda>y. y \<noteq> c) (subscriptions (connection x)) \<rparr> \<rparr>"
      using call_last [OF Some True] D(1) by simp
    have "callback_count ?x c = 0"
      unfolding x' by (simp add: callback_count_def delete_conv')
    moreover have "transport ?x = transport x @ [ChannelUnsubscribed c]"
      unfolding x' by simp
    moreover have "length (callbacks sub) = 1" using len True by simp
    ultimately show ?thesis using gone cnt by simp
  next
    case False
    let ?x = "call_unsubscribe_fn (RemoveCallback c i) x"
    have x': "?x = x\<lparr> channelsRef := AList.update c
           (sub\<lparr> callbacks := AList.delete i (callbacks sub) \<rparr>) (channelsRef x) \<rparr>"
      by (rule call_other [OF Some False])
    have "callback_count ?x c = length (AList.delete i (callbacks sub))"
      unfolding x' by (simp add: callback_count_def update_conv')
    moreover have "transport ?x = transport x"
      unfolding x' by simp
    moreover have "length (callbacks sub) \<noteq> 1" using len False by auto
    ultimately show ?thesis using gone cnt len by simp
  qed
qed

lemma subscribe_connected:
  assumes "user s \<noteq> None" "status (connection s) = Connected"
  shows "fst (subscribe now c cb i s) = RemoveCallback c i"
    and "callback_of (snd (subscribe now c cb i s)) c i = Some cb"
proof -
  obtain uid where u: "user s = Some uid" using assms(1) by auto
  show "fst (subscribe now c cb i s) = RemoveCallback c i"
    using u assms(2) by (cases "map_of (channelsRef s) c") (simp_all add: subscribe_new subscribe_existing)
  show "callback_of (snd (subscribe now c cb i s)) c i = Some cb"
  proof (cases "map_of (channelsRef s) c")
    case None
    have "callback_of (snd (subscribe now c cb i s)) c i
        = (if c = c then map_of (callbacks \<lparr> channel = c, callbacks = [(i, cb)], lastActivity = now \<rparr>) i
           else callback_of s c i)"
      by (rule callback_of_update) (simp add: subscribe_new [OF u assms(2) None])
    then show ?thesis by simp
  next
    case (Some sub)
    have "callback_of (snd (subscribe now c cb i s)) c i
        = (if c = c then map_of (callbacks (sub\<lparr> callbacks := AList.update i cb (callbacks sub) \<rparr>)) i
           else callback_of s c i)"
      by (rule callback_of_update) (simp add: subscribe_existing [OF u assms(2) Some])
    then show ?thesis by (simp add: update_conv')
  qed
qed

lemma subscribe_disconnected:
  "user s = None \<or> status (connection s) \<noteq> Connected
   \<Longrightarrow> fst (subscribe now c cb i s) = Noop \<and> snd (subscribe now c cb i s) = s"
  by (simp add: subscribe_not_connected)

lemma step_keeps_entry:
  assumes "\<not> adds_callback c i e"
  shows "callback_of (step cfg s e) c i = callback_of s c i \<or> callback_of (step cfg s e) c i = None"
proof (cases e)
  case (Connect now rnd probe)
  then show ?thesis using callback_of_same [of "step cfg s e" s c i] by (simp add: connect_keeps)
next
  case (TimerFires now rnd probe)
  then show ?thesis using callback_of_same [of "step cfg s e" s c i] by (simp add: timer_keeps)
next
  case (Disconnect now)
  then show ?thesis using disconnect_removes [of now s c i] by (simp add: has_callback_iff)
next
  case (Subscribe now n cb j)
  show ?thesis
  proof (cases "user s = None \<or> status (connection s) \<noteq> Connected")
    case True
    then show ?thesis using Subscribe by (simp add: subscribe_not_connected)
  next
    case False
    then obtain uid where u: "user s = Some uid" "status (connection s) = Connected" by auto
    have ne: "c = n \<Longrightarrow> j \<noteq> i" using assms Subscribe by auto
    show ?thesis
    proof (cases "map_of (channelsRef s) n")
      case None
      have "callback_of (step cfg s e) c i
         = (if c = n then map_of (callbacks \<lparr> channel = n, callbacks = [(j, cb)], lastActivity = now \<rparr>) i
            else callback_of s c i)"
        by (rule callback_of_update) (simp add: Subscribe subscribe_new [OF u None])
      then show ?thesis using ne by auto
    next
      case (Some sub)
      have "callback_of (step cfg s e) c i
         = (if c = n then map_of (callbacks (sub\<lparr> callbacks := AList.update j cb (callbacks sub) \<rparr>)) i
            else callback_of s c i)"
        by (rule callback_of_update) (simp add: Subscribe subscribe_existing [OF u Some])
      moreover have "c = n \<Longrightarrow> map_of (AList.update j cb (callbacks sub)) i = callback_of s c i"
        using ne Some by (simp add: update_conv' callback_of_def)
      ultimately show ?thesis by simp
    qed
  qed
next
  case (CallUnsubscribeFn g)
  show ?thesis
  proof (cases g)
    case Noop
    then show ?thesis using CallUnsubscribeFn by (simp add: call_unsubscribe_fn_def)
  next
    case (RemoveCallback n j)
    show ?thesis
    proof (cases "(c, i) = (n, j)")
      case True
      then show ?thesis using call_removes [of c i s] CallUnsubscribeFn RemoveCallback
        by (simp add: has_callback_iff)
    next
      case False
      then show ?thesis using call_isolated_entry [of c i n j s] CallUnsubscribeFn RemoveCallback
        by simp
    qed
  qed
next
  case (Unsubscribe n)
  show ?thesis
  proof (cases "map_of (channelsRef s) n")
    case None
    then show ?thesis using Unsubscribe by (simp add: unsubscribe_eq_call)
  next
    case (Some sub)
    have "callback_of (step cfg s e) c i = (if c = n then None else callback_of s c i)"
      by (rule callback_of_delete) (simp add: Unsubscribe unsubscribe_bound [OF Some])
    then show ?thesis by simp
  qed
next
  case (UpdatePresence now p)
  then show ?thesis using callback_of_same [of "step cfg s e" s c i] by (simp add: updatePresence_keeps)
qed

lemma run_keeps_entry:
  "callback_of s c i = v \<or> callback_of s c i = None
   \<Longrightarrow> list_all (\<lambda>e. \<not> adds_callback c i e) evs
   \<Longrightarrow> callback_of (run cfg s evs) c i = v \<or> callback_of (run cfg s evs) c i = None"
proof (induction evs arbitrary: s)
  case Nil
  then show ?case by (simp add: run_def)
next
  case (Cons e evs)
  have r: "run cfg s (e # evs) = run cfg (step cfg s e) evs" by (simp add: run_def)
  have "callback_of (step cfg s e) c i = v \<or> callback_of (step cfg s e) c i = None"
    using step_keeps_entry [of c i e cfg s] Cons.prems by auto
  from Cons.IH [OF this] Cons.prems(2) show ?case unfolding r by simp
qed

lemmas hook_defs = example_subscribed_def example_connected_def subscribe_def connect_def
  current_render_def initial_def updateConnectionStatus_def setConnection_def
  startHeartbeat_def Let_def

text \<open>
  Claim C10, as stated: the function that \<open>subscribe\<close> returns removes only its caller's
  callback, and no call of it ever removes another subscriber's callback. It fails when
  two \<open>subscribe\<close> calls on one channel draw the same callback id (the id is the
  millisecond timestamp followed by a random string, and is not compared with the ids in
  use). The second call stores its callback under the id of the first, and the function
  returned to the first caller then removes the second caller's callback and, that being
  the last one, tears the channel down.
\<close>

theorem unsubscribe_fn_id_collision:
  "fst (subscribe 1 ''team_presence_t1'' 7 ''callback_1_a'' example_connected)
     = RemoveCallback ''team_presence_t1'' ''callback_1_a''
   \<and> callback_of (snd (subscribe 1 ''team_presence_t1'' 8 ''callback_1_a'' example_subscribed))
        ''team_presence_t1'' ''callback_1_a'' = Some 8
   \<and> callback_of
        (call_unsubscribe_fn (RemoveCallback ''team_presence_t1'' ''callback_1_a'')
           (snd (subscribe 1 ''team_presence_t1'' 8 ''callback_1_a'' example_subscribed)))
        ''team_presence_t1'' ''callback_1_a'' = None
   \<and> channelsRef
        (call_unsubscribe_fn (RemoveCallback ''team_presence_t1'' ''callback_1_a'')
           (snd (subscribe 1 ''team_presence_t1'' 8 ''callback_1_a'' example_subscribed))) = []"
  by (simp add: hook_defs callback_of_def call_unsubscribe_fn_def)

text \<open>
  Claim C10, amended. Let \<open>f\<close> be the function returned by a \<open>subscribe\<close> call on channel
  \<open>c\<close> that drew the callback id \<open>i\<close>, in any state that a run of the hook reaches, and
  suppose that no later \<open>subscribe\<close> call on \<open>c\<close> draws \<open>i\<close> again. When the hook is
  connected the call registers the caller's callback under \<open>i\<close>; otherwise it changes
  nothing and \<open>f\<close> is the empty function. In a later state \<open>x\<close> the entry under \<open>i\<close> is
  still the caller's callback or is gone. If it is still there, calling \<open>f\<close> removes it:
  the number of callbacks of \<open>c\<close> goes down by one, and the physical channel is torn
  down exactly when that callback was the last one. In every state, calling \<open>f\<close> leaves
  each callback other than \<open>(c, i)\<close> as it was, and calling it twice is the same as
  calling it once. After \<open>f\<close> has been called, or the channel has been torn down by
  \<open>unsubscribe(c)\<close> or by \<open>disconnect()\<close>, every later call of \<open>f\<close> changes nothing.
  The function has no failing branch.
\<close>

theorem unsubscribe_fn_removes_own_callback_only:
  assumes "s = run cfg (initial u t0) history"
    and "subscribe now c cb i s = (f, s1)"
    and "list_all (\<lambda>e. \<not> adds_callback c i e) between"
    and "x = run cfg s1 between"
    and "e = CallUnsubscribeFn f \<or> e = Unsubscribe c \<or> e = Disconnect t"
    and "list_all (\<lambda>e. \<not> adds_callback c i e) later"
    and "s2 = run cfg (step cfg x e) later"
  shows "(user s \<noteq> None \<and> status (connection s) = Connected \<longrightarrow>
            f = RemoveCallback c i \<and> callback_of s1 c i = Some cb)
     \<and> (user s = None \<or> status (connection s) \<noteq> Connected \<longrightarrow> f = Noop \<and> s1 = s)
     \<and> (f \<noteq> Noop \<longrightarrow> callback_of x c i = Some cb \<or> callback_of x c i = None)
     \<and> (f \<noteq> Noop \<and> callback_of x c i = Some cb \<longrightarrow>
            callback_of (call_unsubscribe_fn f x) c i = None
            \<and> callback_count (call_unsubscribe_fn f x) c + 1 = callback_count x c
            \<and> transport (call_unsubscribe_fn f x)
                = transport x @ (if callback_count x c = 1 then [ChannelUnsubscribed c] else []))
     \<and> (\<forall>n j. (n, j) \<noteq> (c, i) \<longrightarrow>
            callback_of (call_unsubscribe_fn f y) n j = callback_of y n j)
     \<and> call_unsubscribe_fn f (call_unsubscribe_fn f y) = call_unsubscribe_fn f y
     \<and> call_unsubscribe_fn f s2 = s2"
proof -
  have f: "f = fst (subscribe now c cb i s)" and s1: "s1 = snd (subscribe now c cb i s)"
    using assms(2) by simp_all
  have fc: "f = Noop \<or> f = RemoveCallback c i"
    using fn_cases [of now c cb i s] f by simp
  have P0: "user s \<noteq> None \<and> status (connection s) = Connected \<longrightarrow>
            f = RemoveCallback c i \<and> callback_of s1 c i = Some cb"
    unfolding f s1 using subscribe_connected [of s now c cb i] by blast
  have P0': "user s = None \<or> status (connection s) \<noteq> Connected \<longrightarrow> f = Noop \<and> s1 = s"
    unfolding f s1 using subscribe_disconnected [of s now c cb i] by blast
  have conn: "f \<noteq> Noop \<longrightarrow> callback_of s1 c i = Some cb"
    using P0 P0' by auto
  have P1a: "f \<noteq> Noop \<longrightarrow> callback_of x c i = Some cb \<or> callback_of x c i = None"
    unfolding assms(4) using run_keeps_entry [OF _ assms(3), of s1 "Some cb" cfg] conn by auto
  have s1': "s1 = step cfg s (Subscribe now c cb i)" using s1 by simp
  have okx: "channels_ok x"
  proof -
    have "x = run cfg (initial u t0) (history @ [Subscribe now c cb i] @ between)"
      unfolding assms(4) s1' assms(1) by (simp add: run_def)
    then show ?thesis using run_invariants [OF initial_invariants(1)] by simp
  qed
  have P1: "f \<noteq> Noop \<and> callback_of x c i = Some cb \<longrightarrow>
            callback_of (call_unsubscribe_fn f x) c i = None
            \<and> callback_count (call_unsubscribe_fn f x) c + 1 = callback_count x c
            \<and> transport (call_unsubscribe_fn f x)
                = transport x @ (if callback_count x c = 1 then [ChannelUnsubscribed c] else [])"
  proof
    assume a: "f \<noteq> Noop \<and> callback_of x c i = Some cb"
    then have fr: "f = RemoveCallback c i" and has: "callback_of x c i \<noteq> None"
      using fc by auto
    show "callback_of (call_unsubscribe_fn f x) c i = None
            \<and> callback_count (call_unsubscribe_fn f x) c + 1 = callback_count x c
            \<and> transport (call_unsubscribe_fn f x)
                = transport x @ (if callback_count x c = 1 then [ChannelUnsubscribed c] else [])"
      unfolding fr by (rule call_removes_one [OF okx has])
  qed
  have P2: "\<forall>n j. (n, j) \<noteq> (c, i) \<longrightarrow>
            callback_of (call_unsubscribe_fn f y) n j = callback_of y n j"
    using fc call_isolated_entry [of _ _ c i y] by (auto simp: call_unsubscribe_fn_def)
  have P4: "call_unsubscribe_fn f s2 = s2"
  proof (cases f)
    case Noop
    then show ?thesis by (simp add: call_unsubscribe_fn_def)
  next
    case (RemoveCallback c' i')
    with fc have fr: "f = RemoveCallback c i" by simp
    have "s2 = run cfg (initial u t0)
                 (history @ [Subscribe now c cb i] @ between @ [e] @ later)"
      unfolding assms(7) assms(4) s1' assms(1) by (simp add: run_def)
    then have ok: "channels_ok s2"
      using run_invariants [OF initial_invariants(1)] by simp
    have "\<not> has_callback (step cfg x e) c i"
      using assms(5) fr call_removes unsubscribe_removes disconnect_removes by auto
    then have "\<not> has_callback s2 c i"
      unfolding assms(7) using assms(6) by (rule run_keeps_absent)
    with ok show ?thesis unfolding fr by (rule call_noop)
  qed
  show ?thesis using P0 P0' P1a P1 P2 P4 call_idem by blast
qed

theorem unsubscribe_fn_removes_own_callback_only_witness:
  "callback_of (snd (subscribe 2 ''team_presence_t1'' 8 ''callback_2_b'' example_subscribed))
     ''team_presence_t1'' ''callback_2_b'' = Some 8
   \<and> callback_of
       (call_unsubscribe_fn (RemoveCallback ''team_presence_t1'' ''callback_2_b'')
          (snd (subscribe 2 ''team_presence_t1'' 8 ''callback_2_b'' example_subscribed)))
       ''team_presence_t1'' ''callback_2_b'' = None
   \<and> callback_of
       (call_unsubscribe_fn (RemoveCallback ''team_presence_t1'' ''callback_2_b'')
          (snd (subscribe 2 ''team_presence_t1'' 8 ''callback_2_b'' example_subscribed)))
       ''team_presence_t1'' ''callback_1_a'' = Some 7
   \<and> callback_count
       (call_unsubscribe_fn (RemoveCallback ''team_presence_t1'' ''callback_2_b'')
          (snd (subscribe 2 ''team_presence_t1'' 8 ''callback_2_b'' example_subscribed)))
       ''team_presence_t1'' = 1
   \<and> transport
       (call_unsubscribe_fn (RemoveCallback ''team_presence_t1'' ''callback_2_b'')
          (snd (subscribe 2 ''team_presence_t1'' 8 ''callback_2_b'' example_subscribed)))
       = [ChannelCreated ''team_presence_t1'' ''u1'']
   \<and> call_unsubscribe_fn (RemoveCallback ''team_presence_t1'' ''callback_2_b'')
       (run DEFAULT_CONFIG
          (step DEFAULT_CONFIG
             (run DEFAULT_CONFIG
                (snd (subscribe 2 ''team_presence_t1'' 8 ''callback_2_b'' example_subscribed)) [])
             (CallUnsubscribeFn (RemoveCallback ''team_presence_t1'' ''callback_2_b'')))
          [Subscribe 5 ''team_presence_t1'' 9 ''callback_5_c''])
     = run DEFAULT_CONFIG
          (step DEFAULT_CONFIG
             (run DEFAULT_CONFIG
                (snd (subscribe 2 ''team_presence_t1'' 8 ''callback_2_b'' example_subscribed)) [])
             (CallUnsubscribeFn (RemoveCallback ''team_presence_t1'' ''callback_2_b'')))
          [Subscribe 5 ''team_presence_t1'' 9 ''callback_5_c'']"
proof -
  let ?c = "''team_presence_t1''"
  let ?f = "RemoveCallback ?c ''callback_2_b''"
  let ?s1 = "snd (subscribe 2 ?c 8 ''callback_2_b'' example_subscribed)"
  have h1: "example_subscribed = run DEFAULT_CONFIG (initial (Some ''u1'') 0)
      [Connect 0 0 None, Subscribe 1 ?c 7 ''callback_1_a'']"
    by (simp add: example_subscribed_def example_connected_def run_def)
  have h2: "subscribe 2 ?c 8 ''callback_2_b'' example_subscribed = (?f, ?s1)"
    by (simp add: hook_defs)
  have h3: "list_all (\<lambda>e. \<not> adds_callback ?c ''callback_2_b'' e) []"
    by simp
  have h5: "CallUnsubscribeFn ?f = CallUnsubscribeFn ?f \<or> CallUnsubscribeFn ?f = Unsubscribe ?c
      \<or> CallUnsubscribeFn ?f = Disconnect 0"
    by simp
  have h6: "list_all (\<lambda>e. \<not> adds_callback ?c ''callback_2_b'' e)
      [Subscribe 5 ?c 9 ''callback_5_c'']"
    by simp
  note w = unsubscribe_fn_removes_own_callback_only [OF h1 h2 h3 refl h5 h6 refl, of ?s1]
  have conn: "user example_subscribed \<noteq> None"
    "status (connection example_subscribed) = Connected"
    by (simp_all add: hook_defs)
  have r: "run DEFAULT_CONFIG ?s1 [] = ?s1"
    by (simp add: run_def)
  have before: "callback_count ?s1 ?c = 2" "callback_of ?s1 ?c ''callback_1_a'' = Some 7"
    "transport ?s1 = [ChannelCreated ?c ''u1'']"
    by (simp_all add: hook_defs callback_count_def callback_of_def)
  from w conn have reg: "callback_of ?s1 ?c ''callback_2_b'' = Some 8"
    by blast
  from w have other: "callback_of (call_unsubscribe_fn ?f ?s1) ?c ''callback_1_a''
      = callback_of ?s1 ?c ''callback_1_a''"
    by simp
  from w reg have removed: "callback_of (call_unsubscribe_fn ?f ?s1) ?c ''callback_2_b'' = None
      \<and> callback_count (call_unsubscribe_fn ?f ?s1) ?c + 1 = callback_count ?s1 ?c
      \<and> transport (call_unsubscribe_fn ?f ?s1)
          = transport ?s1 @ (if callback_count ?s1 ?c = 1 then [ChannelUnsubscribed ?c] else [])"
    unfolding r by simp
  from w have later: "call_unsubscribe_fn ?f
       (run DEFAULT_CONFIG
          (step DEFAULT_CONFIG (run DEFAULT_CONFIG ?s1 []) (CallUnsubscribeFn ?f))
          [Subscribe 5 ?c 9 ''callback_5_c''])
     = run DEFAULT_CONFIG
          (step DEFAULT_CONFIG (run DEFAULT_CONFIG ?s1 []) (CallUnsubscribeFn ?f))
          [Subscribe 5 ?c 9 ''callback_5_c'']"
    by blast
  show ?thesis
    using reg other removed later before by simp
qed

subsection \<open>Updating presence\<close>

text \<open>
  Claim C6, as stated: \<open>updatePresence\<close> merges the partial object into the last known
  presence, so that a field set by an earlier call and absent from the new partial object
  is kept. It fails: after the team page has set \<open>team_id\<close> and \<open>current_page\<close>, an update
  that carries only \<open>status: 'away'\<close> leaves a presence with no \<open>current_page\<close> and
  with \<open>team_id\<close> the empty string.
\<close>

theorem updatePresence_forgets_earlier_fields:
  "presenceRef (updatePresence 10 page_presence example_subscribed)
     = Some \<lparr> user_id = ''u1'', team_id = ''t1'', presence_status = Online, last_seen = 10,
              current_page = Some ''/properties'', cursor_position = None, selection = None,
              metadata = None \<rparr>
   \<and> presenceRef (updatePresence 20 away_presence
                    (updatePresence 10 page_presence example_subscribed))
     = Some \<lparr> user_id = ''u1'', team_id = [], presence_status = Away, last_seen = 20,
              current_page = None, cursor_position = None, selection = None,
              metadata = None \<rparr>"
  by (simp add: updatePresence_def spread_presence_def track_presence_channels_def
        page_presence_def away_presence_def example_subscribed_def example_connected_def
        subscribe_def connect_def current_render_def initial_def updateConnectionStatus_def setConnection_def
        startHeartbeat_def Let_def)

text \<open>
  Claim C6, amended. For a signed-in user, \<open>updatePresence\<close> builds the new local
  presence from the partial object alone: \<open>user_id\<close> is the user's id, \<open>team_id\<close> the empty
  string, \<open>status\<close> \<open>online\<close> and \<open>last_seen\<close> the current time, each replaced by the
  partial object's value when it has the key, and the optional fields are those of the
  partial object. The result does not depend on the last known presence, on the
  subscribed channels or on the transport (no round trip is needed), and the connection
  state and the subscription map are unchanged.
\<close>

theorem updatePresence_from_partial:
  assumes "user s = Some uid"
  shows "presenceRef (updatePresence now p s)
       = Some \<lparr> user_id = (case p_user_id p of Some v \<Rightarrow> v | None \<Rightarrow> uid),
                team_id = (case p_team_id p of Some v \<Rightarrow> v | None \<Rightarrow> []),
                presence_status = (case p_status p of Some v \<Rightarrow> v | None \<Rightarrow> Online),
                last_seen = (case p_last_seen p of Some v \<Rightarrow> v | None \<Rightarrow> now),
                current_page = p_current_page p,
                cursor_position = p_cursor_position p,
                selection = p_selection p,
                metadata = p_metadata p \<rparr>
     \<and> presenceRef (updatePresence now p (s\<lparr> presenceRef := q, channelsRef := chs, transport := tr \<rparr>))
       = presenceRef (updatePresence now p s)
     \<and> connection (updatePresence now p s) = connection s
     \<and> channelsRef (updatePresence now p s) = channelsRef s"
  using assms
  by (simp add: updatePresence_def spread_presence_def track_presence_channels_def Let_def
        split: option.splits)

theorem updatePresence_from_partial_witness:
  "presenceRef (updatePresence 20 away_presence
                    (updatePresence 10 page_presence example_subscribed))
     = Some \<lparr> user_id = ''u1'', team_id = [], presence_status = Away, last_seen = 20,
              current_page = None, cursor_position = None, selection = None,
              metadata = None \<rparr>"
proof -
  have u: "user (updatePresence 10 page_presence example_subscribed) = Some ''u1''"
    by (simp add: updatePresence_def spread_presence_def track_presence_channels_def
        page_presence_def example_subscribed_def example_connected_def
        subscribe_def connect_def current_render_def initial_def updateConnectionStatus_def setConnection_def
        startHeartbeat_def Let_def)
  show ?thesis
    using updatePresence_from_partial [OF u, of 20 away_presence]
    by (simp add: away_presence_def)
qed

subsection \<open>Sending a message\<close>

text \<open>
  Claim C9. For a channel name that the subscription map does not bind, \<open>sendMessage\<close>
  throws an error saying that the channel was not found (the result is the thrown
  error, not a returned failure object) and nothing is sent; for a name that is bound
  it sends one broadcast with the event and the payload on that channel and returns
  the transport's answer.
\<close>

theorem sendMessage_throws_or_broadcasts:
  "(map_of (channelsRef s) channelName = None \<longrightarrow>
      sendMessage channelName event payload resp s
        = Inl (''Channel '' @ channelName @ '' not found''))
   \<and> (\<forall>sub. map_of (channelsRef s) channelName = Some sub \<longrightarrow>
      sendMessage channelName event payload resp s
        = Inr (resp, s\<lparr> transport := transport s @
                          [Broadcast (channel sub) event payload] \<rparr>))"
  by (simp add: sendMessage_def)

theorem sendMessage_throws_or_broadcasts_witness:
  "sendMessage ''team_members_t1'' ''ping'' ''hello'' True example_subscribed
     = Inl ''Channel team_members_t1 not found''
   \<and> map_option (\<lambda>(r, s'). (r, transport s'))
       (case sendMessage ''team_presence_t1'' ''ping'' ''hello'' True example_subscribed of
          Inl e \<Rightarrow> None | Inr x \<Rightarrow> Some x)
     = Some (True, [ChannelCreated ''team_presence_t1'' ''u1'',
                    Broadcast ''team_presence_t1'' ''ping'' ''hello''])"
  using sendMessage_throws_or_broadcasts
          [of example_subscribed "''team_members_t1''" "''ping''" "''hello''" True]
        sendMessage_throws_or_broadcasts
          [of example_subscribed "''team_presence_t1''" "''ping''" "''hello''" True]
  by (simp add: example_subscribed_def example_connected_def subscribe_def connect_def current_render_def
        initial_def updateConnectionStatus_def setConnection_def startHeartbeat_def Let_def)

section \<open>Properties of the team collaboration service\<close>

lemmas ex_defs = ok_responses_def example_team_def example_owner_def example_invite_def
  example_store_def example_collab_def

lemmas join_defs = joinTeam_def invites_by_code_def memberships_def active_member_count_def
  team_of_def at_member_limit_def single_def markActivity_def

lemma upper_example: "toUpperCase ''abcd2345'' = ''ABCD2345''"
  by code_simp

subsection \<open>Joining with an invite whose uses are exhausted\<close>

text \<open>
  Claim C2, as stated: for every invite with \<open>current_uses >= max_uses\<close>, \<open>joinTeam\<close>
  returns the maximum-uses failure and writes nothing. It fails at two inputs. An invite
  that is also expired is rejected by the earlier check, with the expired message. An
  invite with \<open>max_uses = 0\<close> and \<open>current_uses = 0\<close> skips the test of the uses (the
  source tests \<open>max_uses\<close> for truth first) and the caller joins the team.
\<close>

theorem joinTeam_exhausted_counterexample:
  "fst (joinTeam 200 ok_responses ''abcd2345''
         (example_collab ''u2'' (example_store (example_invite (Some 1) 1) [])))
     = JoinFailure ''Invite code has expired''
   \<and> fst (joinTeam 50 ok_responses ''abcd2345''
         (example_collab ''u2'' (example_store (example_invite (Some 0) 0) [])))
     = JoinSuccess (Some example_team)
         \<lparr> m_id = ''m9'', m_team_id = ''t1'', m_user_id = ''u2'', role = Member,
           m_is_active = True \<rparr>"
  by (simp add: join_defs ex_defs upper_example Let_def)

text \<open>
  Claim C2, amended. For every invite that the lookup by code finds, whose \<open>max_uses\<close> is
  set and not zero and whose \<open>current_uses\<close> has reached it, \<open>joinTeam\<close> returns a
  failure and leaves the hook state and the data store as they were (no member row is
  inserted, no invite is updated, no activity is logged). When the caller is signed in
  and the invite has not expired, the failure is the maximum-uses one.
\<close>

theorem joinTeam_exhausted:
  assumes "single (invites_by_code (db c) inviteCode) = Some invite"
    and "max_uses invite = Some m" "m \<noteq> 0" "current_uses invite \<ge> m"
  shows "snd (joinTeam now rsp inviteCode c) = c
     \<and> (\<exists>msg. fst (joinTeam now rsp inviteCode c) = JoinFailure msg)
     \<and> (c_user c \<noteq> None \<and> expires_at invite \<ge> now \<longrightarrow>
          fst (joinTeam now rsp inviteCode c) = JoinFailure ''Invite code has reached maximum uses'')"
  using assms by (auto simp: joinTeam_def split: option.splits)

theorem joinTeam_exhausted_witness:
  "joinTeam 50 ok_responses ''abcd2345''
         (example_collab ''u2'' (example_store (example_invite (Some 1) 1) []))
     = (JoinFailure ''Invite code has reached maximum uses'',
        example_collab ''u2'' (example_store (example_invite (Some 1) 1) []))"
proof -
  have h: "single (invites_by_code (db (example_collab ''u2'' (example_store (example_invite (Some 1) 1) []))) ''abcd2345'')
      = Some (example_invite (Some 1) 1)"
    by (simp add: join_defs ex_defs upper_example)
  have m: "max_uses (example_invite (Some 1) 1) = Some 1" "(1::int) \<noteq> 0"
      "current_uses (example_invite (Some 1) 1) \<ge> 1"
    by (simp_all add: example_invite_def)
  from joinTeam_exhausted [OF h m, of 50 ok_responses]
  show ?thesis
    by (simp add: prod_eq_iff example_collab_def example_invite_def)
qed

subsection \<open>Joining a team one already belongs to\<close>

text \<open>
  Claim C7, as stated: \<open>joinTeam\<close> fails with the already-a-member error exactly when the
  caller is an active member of the invite's team, so a caller whose only membership row
  is inactive passes this check. It fails: the membership query does not filter on
  \<open>is_active\<close>, and a caller whose only row in the team was removed (soft delete) is
  rejected as already a member.
\<close>

theorem joinTeam_inactive_member_counterexample:
  "fst (joinTeam 50 ok_responses ''abcd2345''
         (example_collab ''u2'' (example_store (example_invite (Some 10) 0) [removed_member])))
     = JoinFailure ''You are already a member of this team''"
  by (simp add: join_defs ex_defs upper_example removed_member_def Let_def)

text \<open>
  Claim C7, amended. When the earlier checks pass (the caller is signed in, the invite is
  found, has not expired and its uses are not exhausted), \<open>joinTeam\<close> fails with the
  already-a-member error exactly when the caller has one membership row in the invite's
  team, active or not. (The store's own error message for a rejected insert is assumed
  not to be this same text.)
\<close>

theorem joinTeam_already_member:
  assumes "c_user c = Some uid"
    and "single (invites_by_code (db c) inviteCode) = Some invite"
    and "expires_at invite \<ge> now"
    and "\<not> exhausted invite"
    and "member_insert_error rsp \<noteq> Some ''You are already a member of this team''"
  shows "fst (joinTeam now rsp inviteCode c) = JoinFailure ''You are already a member of this team''
     \<longleftrightarrow> length (memberships (db c) (i_team_id invite) uid) = 1"
proof -
  have s: "single rows \<noteq> None \<longleftrightarrow> length rows = 1" for rows :: "TeamMember list"
    by (cases rows) (auto simp: single_def split: list.splits)
  show ?thesis
  proof (cases "single (memberships (db c) (i_team_id invite) uid)")
    case None
    then have "length (memberships (db c) (i_team_id invite) uid) \<noteq> 1"
      using s [of "memberships (db c) (i_team_id invite) uid"] by simp
    moreover have "fst (joinTeam now rsp inviteCode c) \<noteq> JoinFailure ''You are already a member of this team''"
      using assms None
      by (auto simp: joinTeam_def exhausted_def at_member_limit_def Let_def
            split: option.splits sum.splits bool.splits if_splits)
    ultimately show ?thesis by simp
  next
    case (Some r)
    then have "length (memberships (db c) (i_team_id invite) uid) = 1"
      using s [of "memberships (db c) (i_team_id invite) uid"] by simp
    moreover have "fst (joinTeam now rsp inviteCode c) = JoinFailure ''You are already a member of this team''"
      using assms Some by (auto simp: joinTeam_def exhausted_def split: option.splits)
    ultimately show ?thesis by simp
  qed
qed

theorem joinTeam_already_member_witness:
  "fst (joinTeam 50 ok_responses ''abcd2345''
         (example_collab ''u2'' (example_store (example_invite (Some 10) 0) [removed_member])))
     = JoinFailure ''You are already a member of this team''
   \<and> length (memberships (example_store (example_invite (Some 10) 0) [removed_member])
        ''t1'' ''u2'') = 1
   \<and> fst (joinTeam 50 ok_responses ''abcd2345''
         (example_collab ''u3'' (example_store (example_invite (Some 10) 0) [removed_member])))
     \<noteq> JoinFailure ''You are already a member of this team''
   \<and> length (memberships (example_store (example_invite (Some 10) 0) [removed_member])
        ''t1'' ''u3'') = 0"
proof -
  let ?d = "example_store (example_invite (Some 10) 0) [removed_member]"
  have i: "single (invites_by_code (db (example_collab u ?d)) ''abcd2345'')
      = Some (example_invite (Some 10) 0)" for u
    by (simp add: join_defs ex_defs upper_example)
  have e: "expires_at (example_invite (Some 10) 0) \<ge> 50" "\<not> exhausted (example_invite (Some 10) 0)"
    by (simp_all add: example_invite_def exhausted_def)
  have r: "member_insert_error ok_responses \<noteq> Some ''You are already a member of this team''"
    by (simp add: ok_responses_def)
  have u: "c_user (example_collab u ?d) = Some u" for u
    by (simp add: example_collab_def)
  have l2: "length (memberships ?d ''t1'' ''u2'') = 1" and l3: "length (memberships ?d ''t1'' ''u3'') = 0"
    by (simp_all add: memberships_def ex_defs removed_member_def)
  show ?thesis
    using joinTeam_already_member [OF u i e r, of "''u2''"]
          joinTeam_already_member [OF u i e r, of "''u3''"] l2 l3
    by (simp add: example_collab_def example_invite_def)
qed

subsection \<open>Updating the team settings\<close>

text \<open>
  Claim C8, as stated: \<open>updateTeamSettings\<close> persists the merge of the stored settings
  with the partial object, keys absent from the partial object keeping their values. It
  fails: the update writes the partial object itself into the \<open>settings\<close> column, so
  after an update that carries only \<open>notifications\<close> the stored settings have no
  \<open>permissions\<close> key any more.
\<close>

theorem updateTeamSettings_overwrites:
  "map_of (settings example_team) ''permissions''
     = Some (JObj [(''invite_members'', JArr [JStr ''owner''])])
   \<and> updateTeamSettings ok_responses new_notifications
       (example_collab ''u1'' (example_store (example_invite (Some 10) 0) []))
     = (True, example_collab ''u1''
         \<lparr> teams = [example_team\<lparr> settings := new_notifications \<rparr>],
           team_invites = [example_invite (Some 10) 0],
           team_members = [example_owner],
           team_activities = [\<lparr> a_team_id = ''t1'', a_user_id = ''u1'',
              action = ''team_settings_updated'', resource_type = ''team'',
              resource_id = ''t1'',
              a_metadata = JObj [(''updated_settings'', JArr [JStr ''notifications''])] \<rparr>] \<rparr>)
   \<and> map_of (settings (example_team\<lparr> settings := new_notifications \<rparr>)) ''permissions'' = None"
  by (simp add: updateTeamSettings_def markActivity_def memberships_def single_def
        object_keys_def new_notifications_def ex_defs Let_def)

text \<open>
  Claim C8, amended. For a signed-in caller whose membership row in the team has role
  owner or admin, and a store that accepts the writes, \<open>updateTeamSettings\<close> returns
  true, replaces the settings of the team by the given object as it is (the caller
  merges before calling), leaves members and invites unchanged, and appends one
  \<open>team_settings_updated\<close> activity whose metadata is the list of the top-level keys of
  the given object under \<open>updated_settings\<close>, with none of their values.
\<close>

theorem updateTeamSettings_replaces:
  assumes "c_user c = Some uid" "teamId c \<noteq> []"
    and "single (memberships (db c) (teamId c) uid) = Some currentMember"
    and "role currentMember = Owner \<or> role currentMember = Admin"
    and "settings_update_error rsp = None" "activity_insert_ok rsp"
  shows "fst (updateTeamSettings rsp new_settings c) = True
     \<and> teams (db (snd (updateTeamSettings rsp new_settings c)))
         = map (\<lambda>t. if t_id t = teamId c then t\<lparr> settings := new_settings \<rparr> else t)
             (teams (db c))
     \<and> team_activities (db (snd (updateTeamSettings rsp new_settings c)))
         = team_activities (db c) @
             [\<lparr> a_team_id = teamId c, a_user_id = uid, action = ''team_settings_updated'',
                resource_type = ''team'', resource_id = teamId c,
                a_metadata = JObj [(''updated_settings'',
                                    JArr (map JStr (map fst new_settings)))] \<rparr>]
     \<and> team_members (db (snd (updateTeamSettings rsp new_settings c))) = team_members (db c)
     \<and> team_invites (db (snd (updateTeamSettings rsp new_settings c))) = team_invites (db c)"
  using assms
  by (auto simp: updateTeamSettings_def markActivity_def object_keys_def Let_def)

theorem updateTeamSettings_replaces_witness:
  "teams (db (snd (updateTeamSettings ok_responses new_notifications
       (example_collab ''u1'' (example_store (example_invite (Some 10) 0) [])))))
     = [example_team\<lparr> settings := new_notifications \<rparr>]
   \<and> map a_metadata (team_activities (db (snd (updateTeamSettings ok_responses new_notifications
       (example_collab ''u1'' (example_store (example_invite (Some 10) 0) []))))))
     = [JObj [(''updated_settings'', JArr [JStr ''notifications''])]]"
proof -
  let ?c = "example_collab ''u1'' (example_store (example_invite (Some 10) 0) [])"
  have h: "c_user ?c = Some ''u1''" "teamId ?c \<noteq> []"
    "single (memberships (db ?c) (teamId ?c) ''u1'') = Some example_owner"
    "role example_owner = Owner \<or> role example_owner = Admin"
    "settings_update_error ok_responses = None" "activity_insert_ok ok_responses"
    by (simp_all add: memberships_def single_def ex_defs)
  show ?thesis
    using updateTeamSettings_replaces [OF h, of new_notifications]
    by (simp add: example_collab_def example_store_def example_team_def new_notifications_def)
qed

end
